theory Spec2Isabelle
  imports Complex_Main "HOL-Library.AList"
begin

text \<open>
  The trade-copy pipeline of the Polymarket copy-trading bot: the order builder
  (\<^verbatim>\<open>TradeOrderBuilder.copyTrade\<close>), the trade monitor (\<^verbatim>\<open>onMessage\<close> of \<^verbatim>\<open>index.ts\<close>),
  the redemption timer (\<^verbatim>\<open>performRedemption\<close> and the end of \<^verbatim>\<open>main\<close>), the holdings
  ledger and the redemption sweep.  Asynchronous calls are taken in the order in which
  they are awaited.
\<close>

section \<open>JavaScript values\<close>

text \<open>
  A JavaScript \<^verbatim>\<open>number\<close> is modelled by a real: the arithmetic of the order builder is
  one subtraction, one division and comparisons, taken exactly.  The value \<^verbatim>\<open>NaN\<close> enters
  only as a result of \<^verbatim>\<open>parseFloat\<close> and is \<open>None\<close>; every comparison with it is false.
\<close>

type_synonym number = real

text \<open>
  \<^verbatim>\<open>String.prototype.toLowerCase\<close> on ASCII text: the letters A to Z change case, every
  other character stays.  It is applied to wallet addresses, which are hexadecimal.
  \<^verbatim>\<open>String.prototype.toUpperCase\<close>, which is applied to the side field of a trade, is
  not defined here: it is built into the language and is a parameter, like
  \<^verbatim>\<open>parseFloat\<close>.
\<close>

definition toLowerChar :: "char \<Rightarrow> char" where
  "toLowerChar ch =
     (let n = (of_char ch :: nat) in if 65 \<le> n \<and> n \<le> 90 then char_of (n + 32) else ch)"

definition toLowerCase :: "string \<Rightarrow> string" where
  "toLowerCase s = map toLowerChar s"

text \<open>\<^verbatim>\<open>s.includes(sub)\<close>: \<open>sub\<close> occurs in \<open>s\<close> as a contiguous substring.\<close>

fun str_includes :: "string \<Rightarrow> string \<Rightarrow> bool" where
  "str_includes [] sub = (sub = [])"
| "str_includes (ch # cs) sub = (take (length sub) (ch # cs) = sub \<or> str_includes cs sub)"

text \<open>The test \<^verbatim>\<open>x > 0\<close> on a number that may be \<^verbatim>\<open>NaN\<close>.\<close>

definition isPositive :: "number option \<Rightarrow> bool" where
  "isPositive v = (case v of None \<Rightarrow> False | Some x \<Rightarrow> 0 < x)"

section \<open>Data model\<close>

text \<open>
  The trade payload keeps the fields the pipeline computes with; title, slug, outcome
  and transaction hash are only printed.
\<close>

datatype clob_side = BUY | SELL

datatype order_type = FOK | FAK

record trade_payload =
  proxyWallet :: "string option"
  conditionId :: string
  asset :: string
  side :: string
  price :: number
  tradeSize :: number
  timestamp :: number

record market_order =
  tokenID :: string
  orderSide :: clob_side
  amount :: number
  orderType :: order_type

record copy_trade_options =
  trade :: trade_payload
  sizeMultiplier :: "number option"
  maxAmount :: "number option"
  optOrderType :: "order_type option"
  optTickSize :: "string option"
  optNegRisk :: "bool option"

record copy_trade_result =
  success :: bool
  orderID :: "string option"
  error :: "string option"
  transactionHashes :: "string list option"
  marketOrder :: "market_order option"

record order_response =
  status :: "string option"
  respOrderID :: "string option"
  makingAmount :: "string option"
  takingAmount :: "string option"
  transactionsHashes :: "string list option"

record balance_check =
  valid :: bool
  required :: number
  available :: number

text \<open>
  Modelled from the spec: \<^verbatim>\<open>getDefaultOrderOptions\<close> of \<^verbatim>\<open>order-builder/helpers\<close> is not
  among the sources; the order intent carries the tick-size and the risk-mode
  configuration, which is all the gateway call is given here.
\<close>

record order_options =
  tickSize :: string
  negRisk :: bool

definition getDefaultOrderOptions :: "string \<Rightarrow> bool \<Rightarrow> order_options" where
  "getDefaultOrderOptions ts nr = \<lparr>tickSize = ts, negRisk = nr\<rparr>"

section \<open>Holdings ledger\<close>

text \<open>
  Modelled from the spec: \<^verbatim>\<open>utils/holdings\<close> (\<^verbatim>\<open>getHoldings\<close>, \<^verbatim>\<open>addHoldings\<close>,
  \<^verbatim>\<open>removeHoldings\<close>) is not among the sources.  The ledger is the persisted document,
  a finite mapping from (market, token) to a quantity: \<open>get\<close> is 0 for an absent key,
  \<open>add\<close> increments, \<open>remove\<close> decrements and clamps at 0.
\<close>

type_synonym ledger = "((string \<times> string) \<times> number) list"

definition getHoldings :: "ledger \<Rightarrow> string \<Rightarrow> string \<Rightarrow> number" where
  "getHoldings l m t = (case map_of l (m, t) of None \<Rightarrow> 0 | Some q \<Rightarrow> q)"

definition addHoldings :: "ledger \<Rightarrow> string \<Rightarrow> string \<Rightarrow> number \<Rightarrow> ledger" where
  "addHoldings l m t a = AList.update (m, t) (getHoldings l m t + a) l"

definition removeHoldings :: "ledger \<Rightarrow> string \<Rightarrow> string \<Rightarrow> number \<Rightarrow> ledger" where
  "removeHoldings l m t a =
     (case map_of l (m, t) of
        None \<Rightarrow> l
      | Some q \<Rightarrow> AList.update (m, t) (max 0 (q - a)) l)"

section \<open>Collaborators and state\<close>

text \<open>
  Every call that leaves the order builder or the sweep is recorded, in order, in a
  trace; the resolution lookup and the redemption attempt are recorded with their
  answers.  A lookup answers that the market is unresolved, or that it is resolved
  and whether the held outcome won.
\<close>

datatype resolution = Unresolved | Resolved bool

datatype event =
    PostOrder market_order order_options order_type
  | UpdateBalanceAllowance
  | DisplayWalletBalance
  | ValidateBuyOrderBalance number
  | ApproveTokensAfterBuy
  | CopyTrade copy_trade_options
  | CheckResolution string resolution
  | RedeemAttempt string bool

text \<open>
  The collaborators are parameters.  \<open>'w\<close> is the state of the outside world (exchange,
  chain, wallet); a call takes it and returns the new one.  A call that can throw
  returns the message of the thrown error as \<open>Inl\<close> (or \<open>Some\<close> when it returns nothing).
  The gateway may answer with no response object at all (\<open>Inr None\<close>); reading a
  property of it then throws a \<^verbatim>\<open>TypeError\<close>, whose engine-specific message is
  \<open>nullPropertyError\<close>.  \<^verbatim>\<open>tradeToMarketOrder\<close> (\<^verbatim>\<open>order-builder/helpers\<close>),
  \<^verbatim>\<open>validateBuyOrderBalance\<close> and \<^verbatim>\<open>displayWalletBalance\<close> (\<^verbatim>\<open>utils/balance\<close>) are not
  among the sources; \<^verbatim>\<open>parseFloat\<close>, \<^verbatim>\<open>toUpperCase\<close> and the conversion of a number to a
  string are built into the language.
\<close>

record 'w collaborators =
  tradeToMarketOrder :: "copy_trade_options \<Rightarrow> string + market_order"
  updateBalanceAllowance :: "'w \<Rightarrow> string option \<times> 'w"
  displayWalletBalance :: "'w \<Rightarrow> string option \<times> 'w"
  validateBuyOrderBalance :: "number \<Rightarrow> 'w \<Rightarrow> (string + balance_check) \<times> 'w"
  createAndPostMarketOrder ::
    "market_order \<Rightarrow> order_options \<Rightarrow> order_type \<Rightarrow> 'w \<Rightarrow> (string + order_response option) \<times> 'w"
  approveTokensAfterBuy :: "'w \<Rightarrow> string option \<times> 'w"
  parseFloat :: "string \<Rightarrow> number option"
  numberToString :: "number \<Rightarrow> string"
  toUpperCase :: "string \<Rightarrow> string"
  nullPropertyError :: string

record 'w state =
  ledger :: ledger
  world :: 'w
  trace :: "event list"

text \<open>
  The orders handed to the execution gateway and the invocations of \<^verbatim>\<open>copyTrade\<close>,
  oldest first.
\<close>

fun postedOrders :: "event list \<Rightarrow> market_order list" where
  "postedOrders [] = []"
| "postedOrders (PostOrder mo oo ot # es) = mo # postedOrders es"
| "postedOrders (e # es) = postedOrders es"

fun copyInvocations :: "event list \<Rightarrow> copy_trade_options list" where
  "copyInvocations [] = []"
| "copyInvocations (CopyTrade opts # es) = opts # copyInvocations es"
| "copyInvocations (e # es) = copyInvocations es"

definition called :: "event \<Rightarrow> 'w \<Rightarrow> 'w state \<Rightarrow> 'w state" where
  "called e w s = s\<lparr>world := w, trace := trace s @ [e]\<rparr>"

section \<open>The order builder: copyTrade\<close>

text \<open>
  \<^verbatim>\<open>copyTrade\<close> is a \<^verbatim>\<open>try\<close> with a \<^verbatim>\<open>catch\<close>.  The body of the \<^verbatim>\<open>try\<close> returns \<open>Inr\<close> of
  a result or \<open>Inl\<close> of the message of the error thrown, together with the state reached
  by then.  The calls to the logger print and do nothing else; they are left out.
\<close>

definition failure :: "string \<Rightarrow> copy_trade_result" where
  "failure msg =
     \<lparr>success = False, orderID = None, error = Some msg, transactionHashes = None,
      marketOrder = None\<rparr>"

definition placed :: "order_response \<Rightarrow> market_order \<Rightarrow> copy_trade_result" where
  "placed r mo =
     \<lparr>success = True, orderID = respOrderID r, error = None,
      transactionHashes = transactionsHashes r, marketOrder = Some mo\<rparr>"

text \<open>
  \<^verbatim>\<open>response.makingAmount ? parseFloat(response.makingAmount) : sellAmount\<close> and
  \<^verbatim>\<open>response.takingAmount ? parseFloat(response.takingAmount) : 0\<close>: a field that is
  \<^verbatim>\<open>undefined\<close> or the empty string is falsy and gives the default.
\<close>

definition amountOr :: "(string \<Rightarrow> number option) \<Rightarrow> string option \<Rightarrow> number \<Rightarrow> number option" where
  "amountOr pf field dflt =
     (case field of
        None \<Rightarrow> Some dflt
      | Some str \<Rightarrow> if str \<noteq> [] then pf str else Some dflt)"

text \<open>
  The defaults of the destructured options: tick size \<^verbatim>\<open>"0.01"\<close>, no negative risk,
  order type \<^verbatim>\<open>FAK\<close>.
\<close>

definition orderTypeOf :: "copy_trade_options \<Rightarrow> order_type" where
  "orderTypeOf opts = (case optOrderType opts of None \<Rightarrow> FAK | Some v \<Rightarrow> v)"

definition orderOptionsOf :: "copy_trade_options \<Rightarrow> order_options" where
  "orderOptionsOf opts =
     getDefaultOrderOptions
       (case optTickSize opts of None \<Rightarrow> ''0.01'' | Some v \<Rightarrow> v)
       (case optNegRisk opts of None \<Rightarrow> False | Some v \<Rightarrow> v)"

text \<open>
  The SELL branch of \<^verbatim>\<open>copyTrade\<close>, inside the \<^verbatim>\<open>try\<close>: first what follows the
  gateway's answer, then the branch from its start.
\<close>

definition sellSettle ::
  "'w collaborators \<Rightarrow> trade_payload \<Rightarrow> market_order \<Rightarrow> string + order_response option \<Rightarrow>
   'w state \<Rightarrow> (string + copy_trade_result) \<times> 'w state"
where
  "sellSettle c tr mo answer s =
     (case answer of
        Inl msg \<Rightarrow> (Inl msg, s)
      | Inr None \<Rightarrow> (Inl (nullPropertyError c), s)
      | Inr (Some response) \<Rightarrow>
          (let tokensSold = amountOr (parseFloat c) (makingAmount response) (amount mo)
           in (Inr (placed response mo),
               if isPositive tokensSold
               then s\<lparr>ledger :=
                      removeHoldings (ledger s) (conditionId tr) (asset tr) (the tokensSold)\<rparr>
               else s)))"

definition copyTradeSell ::
  "'w collaborators \<Rightarrow> copy_trade_options \<Rightarrow> 'w state \<Rightarrow> (string + copy_trade_result) \<times> 'w state"
where
  "copyTradeSell c opts s =
     (let marketId = conditionId (trade opts);
          tokenId = asset (trade opts);
          ot = orderTypeOf opts;
          holdingsAmount = getHoldings (ledger s) marketId tokenId
      in if holdingsAmount \<le> 0 then (Inr (failure ''No holdings available to sell''), s)
         else
           (let sellAmount = holdingsAmount;
                mo = \<lparr>tokenID = tokenId, orderSide = SELL, amount = sellAmount, orderType = ot\<rparr>;
                orderOptions = orderOptionsOf opts;
                posted = createAndPostMarketOrder c mo orderOptions ot (world s)
            in sellSettle c (trade opts) mo (fst posted)
                 (called (PostOrder mo orderOptions ot) (snd posted) s)))"

text \<open>
  The BUY branch, last step first.  After the gateway's answer the ledger is
  reconciled and the tokens are approved; a failing \<^verbatim>\<open>approveTokensAfterBuy\<close> is caught
  on the spot and only logged.
\<close>

definition reconcileBuy ::
  "'w collaborators \<Rightarrow> trade_payload \<Rightarrow> market_order \<Rightarrow> order_response \<Rightarrow> ledger \<Rightarrow> ledger"
where
  "reconcileBuy c tr mo response l =
     (let tokensReceived = amountOr (parseFloat c) (takingAmount response) 0
      in if isPositive tokensReceived
         then addHoldings l (conditionId tr) (asset tr) (the tokensReceived)
         else
           (let estimatedTokens = amount mo / (if price tr \<noteq> 0 then price tr else 1)
            in if 0 < estimatedTokens
               then addHoldings l (conditionId tr) (asset tr) estimatedTokens
               else l))"

definition buySettle ::
  "'w collaborators \<Rightarrow> trade_payload \<Rightarrow> market_order \<Rightarrow> string + order_response option \<Rightarrow>
   'w state \<Rightarrow> (string + copy_trade_result) \<times> 'w state"
where
  "buySettle c tr mo answer s =
     (case answer of
        Inl msg \<Rightarrow> (Inl msg, s)
      | Inr None \<Rightarrow> (Inl (nullPropertyError c), s)
      | Inr (Some response) \<Rightarrow>
          (let s1 = s\<lparr>ledger := reconcileBuy c tr mo response (ledger s)\<rparr>;
               approved = approveTokensAfterBuy c (world s1)
           in (Inr (placed response mo), called ApproveTokensAfterBuy (snd approved) s1)))"

text \<open>
  The balance check and the order: an order that is not valid fails when nothing is
  available and is otherwise cut down to what is available.
\<close>

definition buyPlace ::
  "'w collaborators \<Rightarrow> copy_trade_options \<Rightarrow> market_order \<Rightarrow> string + balance_check \<Rightarrow>
   'w state \<Rightarrow> (string + copy_trade_result) \<times> 'w state"
where
  "buyPlace c opts mo0 checked s =
     (case checked of
        Inl msg \<Rightarrow> (Inl msg, s)
      | Inr balanceCheck \<Rightarrow>
          if \<not> valid balanceCheck \<and> available balanceCheck \<le> 0
          then (Inr (failure (''Insufficient USDC balance. Available: ''
                              @ numberToString c (available balanceCheck))), s)
          else
            (let mo = (if \<not> valid balanceCheck then mo0\<lparr>amount := available balanceCheck\<rparr>
                       else mo0);
                 ot = orderTypeOf opts;
                 orderOptions = orderOptionsOf opts;
                 posted = createAndPostMarketOrder c mo orderOptions ot (world s)
             in buySettle c (trade opts) mo (fst posted)
                  (called (PostOrder mo orderOptions ot) (snd posted) s)))"

text \<open>
  The start of the BUY branch: the order is built from the trade, the allowance is
  refreshed (a failure is caught and logged), the balance is displayed and checked.
\<close>

definition copyTradeBuy ::
  "'w collaborators \<Rightarrow> copy_trade_options \<Rightarrow> 'w state \<Rightarrow> (string + copy_trade_result) \<times> 'w state"
where
  "copyTradeBuy c opts s =
     (case tradeToMarketOrder c opts of
        Inl msg \<Rightarrow> (Inl msg, s)
      | Inr mo0 \<Rightarrow>
          (let refreshed = updateBalanceAllowance c (world s);
               s1 = called UpdateBalanceAllowance (snd refreshed) s;
               shown = displayWalletBalance c (world s1);
               s2 = called DisplayWalletBalance (snd shown) s1
           in (case fst shown of
                 Some msg \<Rightarrow> (Inl msg, s2)
               | None \<Rightarrow>
                   (let checked = validateBuyOrderBalance c (amount mo0) (world s2)
                    in buyPlace c opts mo0 (fst checked)
                         (called (ValidateBuyOrderBalance (amount mo0)) (snd checked) s2)))))"

text \<open>The body of the \<^verbatim>\<open>try\<close>: the side decides the branch.\<close>

definition copyTradeTry ::
  "'w collaborators \<Rightarrow> copy_trade_options \<Rightarrow> 'w state \<Rightarrow> (string + copy_trade_result) \<times> 'w state"
where
  "copyTradeTry c opts s =
     (if toUpperCase c (side (trade opts)) = ''SELL'' then copyTradeSell c opts s
      else copyTradeBuy c opts s)"

text \<open>
  The \<^verbatim>\<open>catch\<close>: on a balance or allowance message the balance is displayed and, if
  that returned, the allowance refreshed; an error of either is caught and logged.
\<close>

definition isBalanceOrAllowanceError :: "string \<Rightarrow> bool" where
  "isBalanceOrAllowanceError msg =
     (str_includes msg ''not enough balance'' \<or> str_includes msg ''allowance'')"

definition diagnose :: "'w collaborators \<Rightarrow> 'w state \<Rightarrow> 'w state" where
  "diagnose c s =
     (let shown = displayWalletBalance c (world s);
          s1 = called DisplayWalletBalance (snd shown) s
      in (case fst shown of
            Some msg \<Rightarrow> s1
          | None \<Rightarrow> called UpdateBalanceAllowance (snd (updateBalanceAllowance c (world s1))) s1))"

definition copyTrade ::
  "'w collaborators \<Rightarrow> copy_trade_options \<Rightarrow> 'w state \<Rightarrow> copy_trade_result \<times> 'w state"
where
  "copyTrade c opts s =
     (case copyTradeTry c opts s of
        (Inr res, s') \<Rightarrow> (res, s')
      | (Inl errorMessage, s') \<Rightarrow>
          (failure errorMessage,
           if isBalanceOrAllowanceError errorMessage then diagnose c s' else s'))"

section \<open>The trade monitor and the redemption timer\<close>

record config =
  targetWalletAddress :: string
  cfgSizeMultiplier :: number
  cfgMaxAmount :: "number option"
  cfgOrderType :: order_type
  cfgTickSize :: string
  cfgNegRisk :: bool
  enableCopyTrading :: bool
  redeemDurationMinutes :: "int option"

text \<open>
  \<^verbatim>\<open>process.env.REDEEM_DURATION ? parseInt(process.env.REDEEM_DURATION, 10) : null\<close>: an unset
  or empty variable gives \<^verbatim>\<open>null\<close>.  \<^verbatim>\<open>parseInt\<close> is a parameter; \<open>None\<close> stands for
  \<^verbatim>\<open>null\<close> and for \<^verbatim>\<open>NaN\<close>, which are both falsy.
\<close>

definition readRedeemDuration :: "(string \<Rightarrow> int option) \<Rightarrow> string option \<Rightarrow> int option" where
  "readRedeemDuration parseInt var =
     (case var of
        None \<Rightarrow> None
      | Some str \<Rightarrow> if str \<noteq> [] then parseInt str else None)"

text \<open>
  \<^verbatim>\<open>if (redeemDurationMinutes && redeemDurationMinutes > 0)\<close>: the interval, in
  milliseconds, of the timer that \<^verbatim>\<open>main\<close> installs, if it installs one.
\<close>

definition redeemIntervalMs :: "config \<Rightarrow> int option" where
  "redeemIntervalMs cfg =
     (case redeemDurationMinutes cfg of
        None \<Rightarrow> None
      | Some n \<Rightarrow> if n \<noteq> 0 \<and> 0 < n then Some (n * 60 * 1000) else None)"

text \<open>
  The order builder exists when copy trading is enabled and the exchange client
  could be initialised; otherwise it stays \<^verbatim>\<open>null\<close>.
\<close>

definition initOrderBuilder :: "bool \<Rightarrow> string + 'w collaborators \<Rightarrow> 'w collaborators option" where
  "initOrderBuilder enabled client =
     (if enabled then (case client of Inl err \<Rightarrow> None | Inr c \<Rightarrow> Some c) else None)"

record redemption_result =
  total :: nat
  resolved :: nat
  redeemed :: nat
  failed :: nat

datatype log_entry =
    TradeDetected trade_payload
  | TradeDetails trade_payload
  | CopyingTrade
  | TradeCopied "string option"
  | FailedToCopy "string option"
  | PausedNotCopied
  | BuilderNotAvailable
  | RedemptionStarting
  | RedemptionSummary redemption_result
  | RedemptionError string
  | CopyTradingResumed

record 'w app =
  core :: "'w state"
  isCopyTradingPaused :: bool
  logged :: "log_entry list"

definition logs :: "log_entry \<Rightarrow> 'w app \<Rightarrow> 'w app" where
  "logs e a = a\<lparr>logged := logged a @ [e]\<rparr>"

definition initialApp :: "'w state \<Rightarrow> 'w app" where
  "initialApp s = \<lparr>core = s, isCopyTradingPaused = False, logged = []\<rparr>"

record message =
  topic :: string
  msgType :: string
  payload :: trade_payload

text \<open>
  \<^verbatim>\<open>new Date(ms).toISOString()\<close> throws a \<^verbatim>\<open>RangeError\<close> when the time value is outside
  the range of dates, 8.64e15 milliseconds either side of the epoch.
\<close>

definition dateInRange :: "number \<Rightarrow> bool" where
  "dateInRange ms = (\<bar>ms\<bar> \<le> 8640000000000000)"

datatype handler_outcome = Returned | RangeError

definition copyOptions :: "config \<Rightarrow> trade_payload \<Rightarrow> copy_trade_options" where
  "copyOptions cfg p =
     \<lparr>trade = p, sizeMultiplier = Some (cfgSizeMultiplier cfg), maxAmount = cfgMaxAmount cfg,
      optOrderType = Some (cfgOrderType cfg), optTickSize = Some (cfgTickSize cfg),
      optNegRisk = Some (cfgNegRisk cfg)\<rparr>"

definition fromTargetWallet :: "config \<Rightarrow> trade_payload \<Rightarrow> bool" where
  "fromTargetWallet cfg p =
     (map_option toLowerCase (proxyWallet p) = Some (toLowerCase (targetWalletAddress cfg)))"

text \<open>
  The copy itself: the invocation is noted in the trace, \<^verbatim>\<open>copyTrade\<close> runs on the
  ledger and the world, and its result is logged.
\<close>

definition forward :: "'w collaborators \<Rightarrow> copy_trade_options \<Rightarrow> 'w app \<Rightarrow> 'w app" where
  "forward c opts a =
     (let s0 = (core a)\<lparr>trace := trace (core a) @ [CopyTrade opts]\<rparr>;
          finished = copyTrade c opts s0;
          a1 = a\<lparr>core := snd finished\<rparr>
      in if success (fst finished) then logs (TradeCopied (orderID (fst finished))) a1
         else logs (FailedToCopy (error (fst finished))) a1)"

definition onMessage ::
  "config \<Rightarrow> 'w collaborators option \<Rightarrow> message \<Rightarrow> 'w app \<Rightarrow> handler_outcome \<times> 'w app"
where
  "onMessage cfg orderBuilder msg a =
     (if topic msg \<noteq> ''activity'' \<or> msgType msg \<noteq> ''trades'' then (Returned, a)
      else if fromTargetWallet cfg (payload msg) then
        (let a1 = logs (TradeDetected (payload msg)) a
         in if \<not> dateInRange (timestamp (payload msg) * 1000) then (RangeError, a1)
            else
              (let a2 = logs (TradeDetails (payload msg)) a1
               in if orderBuilder \<noteq> None \<and> enableCopyTrading cfg \<and> \<not> isCopyTradingPaused a2
                  then (Returned,
                        forward (the orderBuilder) (copyOptions cfg (payload msg))
                          (logs CopyingTrade a2))
                  else if enableCopyTrading cfg \<and> isCopyTradingPaused a2
                  then (Returned, logs PausedNotCopied a2)
                  else if enableCopyTrading cfg
                  then (Returned, logs BuilderNotAvailable a2)
                  else (Returned, a2)))
      else (Returned, a))"

text \<open>
  \<^verbatim>\<open>performRedemption\<close>.  The sweep \<^verbatim>\<open>autoRedeemResolvedMarkets\<close> is a parameter here: it
  is given the retry count 3 and either returns the counts or throws.  What runs before
  the sweep is awaited and what runs after it are separate steps, since trade events
  are handled in between.
\<close>

definition redemptionBegin :: "'w app \<Rightarrow> 'w app" where
  "redemptionBegin a = (logs RedemptionStarting a)\<lparr>isCopyTradingPaused := True\<rparr>"

definition redemptionEnd :: "string + redemption_result \<Rightarrow> 'w app \<Rightarrow> 'w app" where
  "redemptionEnd outcome a =
     (let a1 = (case outcome of
                  Inr redemptionResult \<Rightarrow> logs (RedemptionSummary redemptionResult) a
                | Inl err \<Rightarrow> logs (RedemptionError err) a)
      in logs CopyTradingResumed (a1\<lparr>isCopyTradingPaused := False\<rparr>))"

definition performRedemption ::
  "(nat \<Rightarrow> 'w state \<Rightarrow> (string + redemption_result) \<times> 'w state) \<Rightarrow> 'w app \<Rightarrow> 'w app"
where
  "performRedemption sweep a =
     (let a1 = redemptionBegin a;
          swept = sweep 3 (core a1)
      in redemptionEnd (fst swept) (a1\<lparr>core := snd swept\<rparr>))"

text \<open>
  The states the program can be in after \<^verbatim>\<open>main\<close> has set it up: trade events arrive at
  any time; the timer, if one was installed, starts a sweep, and a sweep ends with the
  counts or with an error, having done to the ledger and the world whatever it does.
\<close>

inductive reachable ::
  "config \<Rightarrow> 'w collaborators option \<Rightarrow> 'w state \<Rightarrow> 'w app \<Rightarrow> bool"
  for cfg :: config and orderBuilder :: "'w collaborators option" and s0 :: "'w state"
where
  started: "reachable cfg orderBuilder s0 (initialApp s0)"
| inbound: "reachable cfg orderBuilder s0 a \<Longrightarrow>
            reachable cfg orderBuilder s0 (snd (onMessage cfg orderBuilder msg a))"
| timerFires: "reachable cfg orderBuilder s0 a \<Longrightarrow> redeemIntervalMs cfg = Some ms \<Longrightarrow>
               reachable cfg orderBuilder s0 (redemptionBegin a)"
| sweepReturns: "reachable cfg orderBuilder s0 a \<Longrightarrow> redeemIntervalMs cfg = Some ms \<Longrightarrow>
                 reachable cfg orderBuilder s0 (redemptionEnd outcome (a\<lparr>core := s'\<rparr>))"

code_pred reachable .

section \<open>The redemption sweep\<close>

text \<open>
  Modelled from the spec: \<^verbatim>\<open>autoRedeemResolvedMarkets\<close> of \<^verbatim>\<open>utils/redeem\<close> is not among
  the sources.  The sweep enumerates the distinct markets of the ledger; each is
  examined; an unresolved market is skipped; a resolved market whose held outcome won
  is redeemed, with at most \<open>maxRetries\<close> attempts, and its entries are removed from the
  ledger on success; a market whose attempts all failed is counted as failed and the
  sweep goes on.  The resolution lookup and the redemption call are collaborators.
\<close>

record 'w redeemers =
  checkResolution :: "string \<Rightarrow> 'w \<Rightarrow> resolution \<times> 'w"
  redeemPosition :: "string \<Rightarrow> 'w \<Rightarrow> bool \<times> 'w"

fun redeemWithRetry :: "'w redeemers \<Rightarrow> nat \<Rightarrow> string \<Rightarrow> 'w state \<Rightarrow> bool \<times> 'w state" where
  "redeemWithRetry rd 0 m s = (False, s)"
| "redeemWithRetry rd (Suc n) m s =
     (let attempt = redeemPosition rd m (world s);
          s1 = called (RedeemAttempt m (fst attempt)) (snd attempt) s
      in if fst attempt then (True, s1) else redeemWithRetry rd n m s1)"

definition removeMarket :: "ledger \<Rightarrow> string \<Rightarrow> ledger" where
  "removeMarket l m = filter (\<lambda>entry. fst (fst entry) \<noteq> m) l"

fun sweepMarkets ::
  "'w redeemers \<Rightarrow> nat \<Rightarrow> string list \<Rightarrow> redemption_result \<Rightarrow> 'w state \<Rightarrow>
   redemption_result \<times> 'w state"
where
  "sweepMarkets rd maxRetries [] counts s = (counts, s)"
| "sweepMarkets rd maxRetries (m # ms) counts s =
     (let looked = checkResolution rd m (world s);
          s1 = called (CheckResolution m (fst looked)) (snd looked) s;
          examined = counts\<lparr>total := total counts + 1\<rparr>
      in (case fst looked of
            Unresolved \<Rightarrow> sweepMarkets rd maxRetries ms examined s1
          | Resolved won \<Rightarrow>
              (let settled = examined\<lparr>resolved := resolved examined + 1\<rparr>
               in if \<not> won then sweepMarkets rd maxRetries ms settled s1
                  else
                    (let tried = redeemWithRetry rd maxRetries m s1
                     in if fst tried
                        then sweepMarkets rd maxRetries ms
                               (settled\<lparr>redeemed := redeemed settled + 1\<rparr>)
                               ((snd tried)\<lparr>ledger := removeMarket (ledger (snd tried)) m\<rparr>)
                        else sweepMarkets rd maxRetries ms
                               (settled\<lparr>failed := failed settled + 1\<rparr>) (snd tried)))))"

definition heldMarkets :: "ledger \<Rightarrow> string list" where
  "heldMarkets l = remdups (map (\<lambda>entry. fst (fst entry)) l)"

definition autoRedeemResolvedMarkets ::
  "'w redeemers \<Rightarrow> nat \<Rightarrow> 'w state \<Rightarrow> redemption_result \<times> 'w state"
where
  "autoRedeemResolvedMarkets rd maxRetries s =
     sweepMarkets rd maxRetries (heldMarkets (ledger s))
       \<lparr>total = 0, resolved = 0, redeemed = 0, failed = 0\<rparr> s"

text \<open>The redemption attempts made for one market, counted in a trace.\<close>

definition attempts :: "string \<Rightarrow> event list \<Rightarrow> nat" where
  "attempts m tr =
     length (filter (\<lambda>e. e = RedeemAttempt m True \<or> e = RedeemAttempt m False) tr)"

text \<open>The markets whose resolution was looked up, in the order of the trace.\<close>

fun examinedMarkets :: "event list \<Rightarrow> string list" where
  "examinedMarkets [] = []"
| "examinedMarkets (CheckResolution m r # es) = m # examinedMarkets es"
| "examinedMarkets (e # es) = examinedMarkets es"

text \<open>
  Modelled from the spec: what the sweep is to do for one market, as a verdict and the
  calls that go with it (steps 3 to 5 of the redemption coordinator).  An unresolved
  market is skipped after the lookup.  A resolved market whose held outcome lost is
  left alone.  A resolved market whose held outcome won is redeemed: the attempt that
  succeeds comes after \<open>j\<close> failed ones, fewer than the maximum; or it is exhausted, after
  exactly the maximum number of failed attempts.
\<close>

datatype verdict = Skipped | Lost | Redeemed nat | Exhausted

fun visitLog :: "nat \<Rightarrow> string \<Rightarrow> verdict \<Rightarrow> event list" where
  "visitLog k m Skipped = [CheckResolution m Unresolved]"
| "visitLog k m Lost = [CheckResolution m (Resolved False)]"
| "visitLog k m (Redeemed j) =
     CheckResolution m (Resolved True) # replicate j (RedeemAttempt m False)
       @ [RedeemAttempt m True]"
| "visitLog k m Exhausted =
     CheckResolution m (Resolved True) # replicate k (RedeemAttempt m False)"

fun timely :: "nat \<Rightarrow> verdict \<Rightarrow> bool" where
  "timely k (Redeemed j) = (j < k)"
| "timely k v = True"

fun wasRedeemed :: "verdict \<Rightarrow> bool" where
  "wasRedeemed (Redeemed j) = True"
| "wasRedeemed v = False"

definition redeemedMarkets :: "string list \<Rightarrow> verdict list \<Rightarrow> string list" where
  "redeemedMarkets ms vs = map fst (filter (\<lambda>mv. wasRedeemed (snd mv)) (zip ms vs))"

section \<open>Concrete runs\<close>

text \<open>
  A scripted exchange: the order built from a trade, the balance check and the
  gateway's answer are fixed in advance; the world counts the calls made.  Its
  \<^verbatim>\<open>toUpperCase\<close> changes the letters a to z and nothing else, which is what the
  language does to the ASCII sides used here.
\<close>

definition asciiUpperChar :: "char \<Rightarrow> char" where
  "asciiUpperChar ch =
     (let n = (of_char ch :: nat) in if 97 \<le> n \<and> n \<le> 122 then char_of (n - 32) else ch)"

definition asciiUpperCase :: "string \<Rightarrow> string" where
  "asciiUpperCase str = map asciiUpperChar str"

definition scriptedExchange ::
  "(string + market_order) \<Rightarrow> balance_check \<Rightarrow> (string + order_response option) \<Rightarrow> nat collaborators"
where
  "scriptedExchange built balanceCheck answer =
     \<lparr>tradeToMarketOrder = (\<lambda>opts. built),
      updateBalanceAllowance = (\<lambda>w. (None, Suc w)),
      displayWalletBalance = (\<lambda>w. (None, Suc w)),
      validateBuyOrderBalance = (\<lambda>a w. (Inr balanceCheck, Suc w)),
      createAndPostMarketOrder = (\<lambda>mo oo ot w. (answer, Suc w)),
      approveTokensAfterBuy = (\<lambda>w. (None, Suc w)),
      parseFloat = (\<lambda>str. if str = ''5'' then Some 5 else if str = ''0'' then Some 0 else None),
      numberToString = (\<lambda>x. if x = 0 then ''0'' else ''2''),
      toUpperCase = asciiUpperCase,
      nullPropertyError = ''null is not an object''\<rparr>"

definition tradeOf :: "string \<Rightarrow> trade_payload" where
  "tradeOf sd =
     \<lparr>proxyWallet = Some ''0xAbC'', conditionId = ''m'', asset = ''t'', side = sd,
      price = 1 / 2, tradeSize = 8, timestamp = 1700000000\<rparr>"

definition copyOf :: "trade_payload \<Rightarrow> copy_trade_options" where
  "copyOf tr =
     \<lparr>trade = tr, sizeMultiplier = Some 1, maxAmount = None, optOrderType = Some FAK,
      optTickSize = Some ''0.01'', optNegRisk = Some False\<rparr>"

definition filled :: "string option \<Rightarrow> string option \<Rightarrow> order_response" where
  "filled making taking =
     \<lparr>status = Some ''FILLED'', respOrderID = Some ''o1'', makingAmount = making,
      takingAmount = taking, transactionsHashes = Some []\<rparr>"

definition holding :: "number \<Rightarrow> nat state" where
  "holding q = \<lparr>ledger = [((''m'', ''t''), q)], world = 0, trace = []\<rparr>"

definition buyOrder :: "number \<Rightarrow> market_order" where
  "buyOrder a = \<lparr>tokenID = ''t'', orderSide = BUY, amount = a, orderType = FAK\<rparr>"

definition balanceOf :: "number \<Rightarrow> number \<Rightarrow> balance_check" where
  "balanceOf req avail = \<lparr>valid = (req \<le> avail), required = req, available = avail\<rparr>"

definition watching :: "bool \<Rightarrow> int option \<Rightarrow> config" where
  "watching enabled minutes =
     \<lparr>targetWalletAddress = ''0xaBc'', cfgSizeMultiplier = 1, cfgMaxAmount = None,
      cfgOrderType = FAK, cfgTickSize = ''0.01'', cfgNegRisk = False,
      enableCopyTrading = enabled, redeemDurationMinutes = minutes\<rparr>"

definition tradeMessage :: "trade_payload \<Rightarrow> message" where
  "tradeMessage p = \<lparr>topic = ''activity'', msgType = ''trades'', payload = p\<rparr>"

text \<open>
  Three markets for a sweep: the redemption of \<open>A\<close> fails at every attempt, \<open>B\<close> is
  redeemed at once, \<open>C\<close> is not resolved.
\<close>

definition threeMarkets :: "nat redeemers" where
  "threeMarkets =
     \<lparr>checkResolution = (\<lambda>m w. (if m = ''C'' then Unresolved else Resolved True, Suc w)),
      redeemPosition = (\<lambda>m w. (m = ''B'', Suc w))\<rparr>"

definition threeHoldings :: "nat state" where
  "threeHoldings =
     \<lparr>ledger = [((''A'', ''a1''), 1), ((''B'', ''b1''), 2), ((''C'', ''c1''), 3)],
      world = 0, trace = []\<rparr>"

section \<open>Ledger and trace lemmas\<close>

lemma postedOrders_append: "postedOrders (xs @ ys) = postedOrders xs @ postedOrders ys"
  by (induction xs rule: postedOrders.induct) simp_all

lemma getHoldings_add:
  "getHoldings (addHoldings l m t a) m' t' =
     (if (m', t') = (m, t) then getHoldings l m t + a else getHoldings l m' t')"
  by (simp add: getHoldings_def addHoldings_def update_conv')

lemma getHoldings_remove:
  "0 < getHoldings l m t \<or> 0 \<le> a \<Longrightarrow>
   getHoldings (removeHoldings l m t a) m' t' =
     (if (m', t') = (m, t) then max 0 (getHoldings l m t - a) else getHoldings l m' t')"
  by (auto simp add: getHoldings_def removeHoldings_def update_conv' split: option.splits)

lemma removeHoldings_nothing:
  "0 \<le> getHoldings l m t \<Longrightarrow> removeHoldings l m t 0 = l"
  by (auto simp add: getHoldings_def removeHoldings_def update_triv split: option.splits)

lemma posted_diagnose: "postedOrders (trace (diagnose c s)) = postedOrders (trace s)"
  by (simp add: diagnose_def called_def Let_def postedOrders_append split: option.splits)

lemma ledger_diagnose: "ledger (diagnose c s) = ledger s"
  by (simp add: diagnose_def called_def Let_def split: option.splits)

lemma upper_sell: "asciiUpperCase ''sell'' = ''SELL''"
  by code_simp

lemma scripted_upper:
  "toUpperCase (scriptedExchange built balanceCheck answer) str = asciiUpperCase str"
  by (simp add: scriptedExchange_def)

section \<open>Selling\<close>

text \<open>
  C3.  A SELL event for a key whose ledger quantity is zero or negative: \<^verbatim>\<open>copyTrade\<close>
  returns the failure "No holdings available to sell", hands no order to the gateway
  (the trace and the world are as before) and leaves the ledger as it was.
\<close>

theorem sell_without_holdings:
  assumes "toUpperCase c (side (trade opts)) = ''SELL''"
    and "getHoldings (ledger s) (conditionId (trade opts)) (asset (trade opts)) \<le> 0"
  shows "copyTrade c opts s = (failure ''No holdings available to sell'', s)
         \<and> success (fst (copyTrade c opts s)) = False
         \<and> error (fst (copyTrade c opts s)) = Some ''No holdings available to sell''
         \<and> postedOrders (trace (snd (copyTrade c opts s))) = postedOrders (trace s)
         \<and> trace (snd (copyTrade c opts s)) = trace s
         \<and> world (snd (copyTrade c opts s)) = world s
         \<and> ledger (snd (copyTrade c opts s)) = ledger s"
  using assms by (simp add: copyTrade_def copyTradeTry_def copyTradeSell_def failure_def)

theorem sell_without_holdings_witness:
  "copyTrade (scriptedExchange (Inl ''unused'') (balanceOf 0 0) (Inr (Some (filled None None))))
     (copyOf (tradeOf ''sell'')) (holding 0)
   = (failure ''No holdings available to sell'', holding 0)"
proof -
  have sell: "toUpperCase
                (scriptedExchange (Inl ''unused'') (balanceOf 0 0) (Inr (Some (filled None None))))
                (side (trade (copyOf (tradeOf ''sell'')))) = ''SELL''"
    by (simp add: scripted_upper copyOf_def tradeOf_def upper_sell)
  have none: "getHoldings (ledger (holding 0)) (conditionId (trade (copyOf (tradeOf ''sell''))))
                (asset (trade (copyOf (tradeOf ''sell'')))) \<le> 0"
    by (simp add: copyOf_def tradeOf_def holding_def getHoldings_def)
  show ?thesis
    using sell_without_holdings [OF sell none] by simp
qed

lemma sell_try:
  assumes "toUpperCase c (side (trade opts)) = ''SELL''"
    and "0 < getHoldings (ledger s) (conditionId (trade opts)) (asset (trade opts))"
    and "mo = \<lparr>tokenID = asset (trade opts), orderSide = SELL,
               amount = getHoldings (ledger s) (conditionId (trade opts)) (asset (trade opts)),
               orderType = orderTypeOf opts\<rparr>"
    and "posted = createAndPostMarketOrder c mo (orderOptionsOf opts) (orderTypeOf opts) (world s)"
  shows "copyTradeTry c opts s =
           sellSettle c (trade opts) mo (fst posted)
             (called (PostOrder mo (orderOptionsOf opts) (orderTypeOf opts)) (snd posted) s)"
  using assms by (simp add: copyTradeTry_def copyTradeSell_def Let_def)

lemma sellSettle_posted:
  "postedOrders (trace (snd (sellSettle c tr mo answer s))) = postedOrders (trace s)"
  by (simp add: sellSettle_def Let_def split: sum.splits option.splits)

lemma copyTrade_posted:
  "postedOrders (trace (snd (copyTrade c opts s))) = postedOrders (trace (snd (copyTradeTry c opts s)))"
  by (simp add: copyTrade_def posted_diagnose split: prod.splits sum.splits)

lemma sellSettle_reported:
  assumes "makingAmount response = Some str" "str \<noteq> []" "parseFloat c str = Some q" "0 \<le> q"
    and "0 \<le> getHoldings (ledger s) (conditionId tr) (asset tr)"
  shows "sellSettle c tr mo (Inr (Some response)) s =
           (Inr (placed response mo),
            s\<lparr>ledger := removeHoldings (ledger s) (conditionId tr) (asset tr) q\<rparr>)"
  using assms
  by (cases "q = 0") (simp_all add: sellSettle_def amountOr_def isPositive_def removeHoldings_nothing)

lemma sellSettle_unreported:
  assumes "makingAmount response = None \<or> makingAmount response = Some []"
    and "0 < amount mo"
  shows "sellSettle c tr mo (Inr (Some response)) s =
           (Inr (placed response mo),
            s\<lparr>ledger := removeHoldings (ledger s) (conditionId tr) (asset tr) (amount mo)\<rparr>)"
  using assms
  by (auto simp add: sellSettle_def amountOr_def isPositive_def)

text \<open>
  C1.  A SELL event for a key with a positive ledger quantity: the one order handed to
  the gateway is a sell of the whole held quantity.  When the gateway answers, the
  result is a success; if the answer reports a making amount (a number that is not
  negative), the ledger is decremented by exactly that amount (the decrement clamps at
  0, and is plain subtraction while the amount does not exceed what was held); if the
  answer carries no making amount, the ledger is decremented by the amount requested,
  which leaves 0.  The witness starts from quantity 5, once with the reported amount
  "5" and once with none: both leave 0.
\<close>

theorem sell_full_exit:
  fixes c :: "'w collaborators"
  assumes sell: "toUpperCase c (side (trade opts)) = ''SELL''"
    and held: "held = getHoldings (ledger s) (conditionId (trade opts)) (asset (trade opts))"
    and pos: "0 < held"
    and mo: "mo = \<lparr>tokenID = asset (trade opts), orderSide = SELL, amount = held,
                    orderType = orderTypeOf opts\<rparr>"
    and run: "copyTrade c opts s = (r, s')"
  shows "postedOrders (trace s') = postedOrders (trace s) @ [mo] \<and>
         (\<forall>response.
            fst (createAndPostMarketOrder c mo (orderOptionsOf opts) (orderTypeOf opts) (world s))
              = Inr (Some response) \<longrightarrow>
            success r \<and> marketOrder r = Some mo \<and>
            (\<forall>str q. makingAmount response = Some str \<and> str \<noteq> [] \<and> parseFloat c str = Some q
                     \<and> 0 \<le> q \<longrightarrow>
               ledger s' = removeHoldings (ledger s) (conditionId (trade opts)) (asset (trade opts)) q
               \<and> (q \<le> held \<longrightarrow>
                    getHoldings (ledger s') (conditionId (trade opts)) (asset (trade opts)) = held - q)) \<and>
            (makingAmount response = None \<or> makingAmount response = Some [] \<longrightarrow>
               ledger s' = removeHoldings (ledger s) (conditionId (trade opts)) (asset (trade opts)) held
               \<and> getHoldings (ledger s') (conditionId (trade opts)) (asset (trade opts)) = 0))"
    (is "_ \<and> (\<forall>response. ?answered response \<longrightarrow> ?settled response)")
proof -
  define oo where "oo = orderOptionsOf opts"
  define ot where "ot = orderTypeOf opts"
  define posted where "posted = createAndPostMarketOrder c mo oo ot (world s)"
  define s1 where "s1 = called (PostOrder mo oo ot) (snd posted) s"
  have body: "copyTradeTry c opts s = sellSettle c (trade opts) mo (fst posted) s1"
    using sell_try [of c opts s mo posted] sell held pos mo
    by (simp add: posted_def s1_def oo_def ot_def)
  have s': "s' = snd (copyTrade c opts s)"
    using run by simp
  have orders: "postedOrders (trace s') = postedOrders (trace s) @ [mo]"
    by (simp add: s' copyTrade_posted body sellSettle_posted s1_def called_def postedOrders_append)
  have l1: "ledger s1 = ledger s"
    by (simp add: s1_def called_def)
  have amt: "amount mo = held"
    by (simp add: mo)
  have settled: "?settled response"
    if answer: "fst posted = Inr (Some response)" for response
  proof (intro conjI allI impI)
    show "success r" "marketOrder r = Some mo"
      using run body answer
      by (auto simp add: copyTrade_def sellSettle_def placed_def Let_def)
  next
    fix str q
    assume rep: "makingAmount response = Some str \<and> str \<noteq> [] \<and> parseFloat c str = Some q \<and> 0 \<le> q"
    have "copyTradeTry c opts s =
            (Inr (placed response mo),
             s1\<lparr>ledger := removeHoldings (ledger s1) (conditionId (trade opts)) (asset (trade opts)) q\<rparr>)"
      using sellSettle_reported [of response str c q s1 "trade opts" mo] rep pos held l1
      by (simp add: body answer)
    then show led: "ledger s' = removeHoldings (ledger s) (conditionId (trade opts)) (asset (trade opts)) q"
      using run by (auto simp add: copyTrade_def l1)
    assume "q \<le> held"
    then show "getHoldings (ledger s') (conditionId (trade opts)) (asset (trade opts)) = held - q"
      using pos held by (simp add: led getHoldings_remove)
  next
    assume "makingAmount response = None \<or> makingAmount response = Some []"
    then have "copyTradeTry c opts s =
            (Inr (placed response mo),
             s1\<lparr>ledger := removeHoldings (ledger s1) (conditionId (trade opts)) (asset (trade opts)) held\<rparr>)"
      using sellSettle_unreported [of response mo c "trade opts" s1] pos amt
      by (simp add: body answer)
    then show led: "ledger s' = removeHoldings (ledger s) (conditionId (trade opts)) (asset (trade opts)) held"
      using run by (auto simp add: copyTrade_def l1)
    show "getHoldings (ledger s') (conditionId (trade opts)) (asset (trade opts)) = 0"
      using pos held by (simp add: led getHoldings_remove)
  qed
  show ?thesis
  proof (rule conjI [OF orders], intro allI impI)
    fix response
    assume "?answered response"
    then have "fst posted = Inr (Some response)"
      by (simp add: posted_def oo_def ot_def)
    then show "?settled response"
      by (rule settled)
  qed
qed


theorem sell_full_exit_witness:
  "getHoldings
     (ledger (snd (copyTrade
        (scriptedExchange (Inl ''unused'') (balanceOf 0 0) (Inr (Some (filled (Some ''5'') None))))
        (copyOf (tradeOf ''sell'')) (holding 5)))) ''m'' ''t'' = 0
   \<and> getHoldings
     (ledger (snd (copyTrade
        (scriptedExchange (Inl ''unused'') (balanceOf 0 0) (Inr (Some (filled None None))))
        (copyOf (tradeOf ''sell'')) (holding 5)))) ''m'' ''t'' = 0
   \<and> map amount (postedOrders (trace (snd (copyTrade
        (scriptedExchange (Inl ''unused'') (balanceOf 0 0) (Inr (Some (filled None None))))
        (copyOf (tradeOf ''sell'')) (holding 5))))) = [5]"
proof -
  define opts where "opts = copyOf (tradeOf ''sell'')"
  define mo where
    "mo = \<lparr>tokenID = asset (trade opts), orderSide = SELL, amount = (5::real),
           orderType = orderTypeOf opts\<rparr>"
  define reporting where "reporting = filled (Some ''5'') None"
  define silent where "silent = filled None None"
  define c1 where "c1 = scriptedExchange (Inl ''unused'') (balanceOf 0 0) (Inr (Some reporting))"
  define c2 where "c2 = scriptedExchange (Inl ''unused'') (balanceOf 0 0) (Inr (Some silent))"
  have sell1: "toUpperCase c1 (side (trade opts)) = ''SELL''"
    and sell2: "toUpperCase c2 (side (trade opts)) = ''SELL''"
    by (simp_all add: c1_def c2_def scripted_upper opts_def copyOf_def tradeOf_def upper_sell)
  have key: "conditionId (trade opts) = ''m''" "asset (trade opts) = ''t''"
    by (simp_all add: opts_def copyOf_def tradeOf_def)
  have held: "5 = getHoldings (ledger (holding 5)) (conditionId (trade opts)) (asset (trade opts))"
    by (simp add: key holding_def getHoldings_def)
  have pos: "(0::real) < 5"
    by simp
  have answer1:
    "fst (createAndPostMarketOrder c1 mo (orderOptionsOf opts) (orderTypeOf opts) (world (holding 5)))
       = Inr (Some reporting)"
    by (simp add: c1_def scriptedExchange_def)
  have answer2:
    "fst (createAndPostMarketOrder c2 mo (orderOptionsOf opts) (orderTypeOf opts) (world (holding 5)))
       = Inr (Some silent)"
    by (simp add: c2_def scriptedExchange_def)
  have figure: "makingAmount reporting = Some ''5'' \<and> ''5'' \<noteq> [] \<and> parseFloat c1 ''5'' = Some 5
                \<and> (0::real) \<le> 5"
    by (simp add: reporting_def filled_def c1_def scriptedExchange_def)
  have omitted: "makingAmount silent = None \<or> makingAmount silent = Some []"
    by (simp add: silent_def filled_def)
  note run1 = sell_full_exit [OF sell1 held pos mo_def surjective_pairing]
  note run2 = sell_full_exit [OF sell2 held pos mo_def surjective_pairing]
  note settled1 = mp [OF spec [OF conjunct2 [OF run1], of reporting] answer1]
  note settled2 = mp [OF spec [OF conjunct2 [OF run2], of silent] answer2]
  have reported: "getHoldings (ledger (snd (copyTrade c1 opts (holding 5)))) ''m'' ''t'' = 0"
    using conjunct2 [OF conjunct1 [OF conjunct2 [OF conjunct2 [OF settled1]], rule_format, OF figure]]
    by (simp add: key)
  have unreported: "getHoldings (ledger (snd (copyTrade c2 opts (holding 5)))) ''m'' ''t'' = 0"
    using conjunct2 [OF mp [OF conjunct2 [OF conjunct2 [OF conjunct2 [OF settled2]]] omitted]]
    by (simp add: key)
  have whole: "map amount (postedOrders (trace (snd (copyTrade c2 opts (holding 5))))) = [5]"
    using conjunct1 [OF run2] by (simp add: holding_def mo_def)
  show ?thesis
    using reported unreported whole
    by (simp add: c1_def c2_def opts_def reporting_def silent_def)
qed

section \<open>Buying\<close>

lemma buy_try:
  assumes "toUpperCase c (side (trade opts)) \<noteq> ''SELL''"
    and "tradeToMarketOrder c opts = Inr mo0"
    and "s1 = called UpdateBalanceAllowance (snd (updateBalanceAllowance c (world s))) s"
    and "displayWalletBalance c (world s1) = (None, w2)"
    and "s2 = called DisplayWalletBalance w2 s1"
    and "validateBuyOrderBalance c (amount mo0) (world s2) = (checked, w3)"
    and "s3 = called (ValidateBuyOrderBalance (amount mo0)) w3 s2"
  shows "copyTradeTry c opts s = buyPlace c opts mo0 checked s3"
  using assms by (simp add: copyTradeTry_def copyTradeBuy_def Let_def)

lemma buyPlace_insufficient:
  assumes "\<not> valid balanceCheck" and "available balanceCheck \<le> 0"
  shows "buyPlace c opts mo0 (Inr balanceCheck) s =
           (Inr (failure (''Insufficient USDC balance. Available: ''
                          @ numberToString c (available balanceCheck))), s)"
  using assms by (simp add: buyPlace_def)

lemma buyPlace_clamped:
  assumes "\<not> valid balanceCheck" and "0 < available balanceCheck"
    and "mo = mo0\<lparr>amount := available balanceCheck\<rparr>"
    and "posted = createAndPostMarketOrder c mo (orderOptionsOf opts) (orderTypeOf opts) (world s)"
  shows "buyPlace c opts mo0 (Inr balanceCheck) s =
           buySettle c (trade opts) mo (fst posted)
             (called (PostOrder mo (orderOptionsOf opts) (orderTypeOf opts)) (snd posted) s)"
  using assms by (simp add: buyPlace_def Let_def)

lemma buySettle_posted:
  "postedOrders (trace (snd (buySettle c tr mo answer s))) = postedOrders (trace s)"
  by (simp add: buySettle_def Let_def called_def postedOrders_append split: sum.splits option.splits)

lemma buySettle_answered:
  "fst (buySettle c tr mo (Inr (Some response)) s) = Inr (placed response mo)"
  by (simp add: buySettle_def Let_def)

lemma copyTrade_result:
  "fst (copyTradeTry c opts s) = Inr res \<Longrightarrow> fst (copyTrade c opts s) = res"
  by (cases "copyTradeTry c opts s") (simp add: copyTrade_def)

lemma copyTrade_returned:
  "copyTradeTry c opts s = (Inr res, s1) \<Longrightarrow> copyTrade c opts s = (res, s1)"
  by (simp add: copyTrade_def)

lemma upper_buy: "asciiUpperCase ''BUY'' = ''BUY''"
  by code_simp

lemmas run_defs =
  copyTrade_def copyTradeTry_def copyTradeBuy_def copyTradeSell_def buyPlace_def buySettle_def
  sellSettle_def reconcileBuy_def amountOr_def isPositive_def called_def placed_def failure_def
  orderTypeOf_def orderOptionsOf_def getDefaultOrderOptions_def diagnose_def
  isBalanceOrAllowanceError_def getHoldings_def addHoldings_def removeHoldings_def
  scriptedExchange_def tradeOf_def copyOf_def filled_def holding_def buyOrder_def balanceOf_def
  Let_def

lemma diagnose_extends: "\<exists>rest. trace (diagnose c s) = trace s @ rest"
  by (simp add: diagnose_def Let_def called_def split: option.splits)

lemma copyTrade_extends:
  "\<exists>rest. trace (snd (copyTrade c opts s)) = trace (snd (copyTradeTry c opts s)) @ rest"
  by (cases "copyTradeTry c opts s")
     (simp add: copyTrade_def diagnose_extends split: sum.splits)

lemma buyPlace_posted:
  "\<exists>a. postedOrders (trace (snd (buyPlace c opts mo0 checked s))) = postedOrders (trace s)
       \<or> postedOrders (trace (snd (buyPlace c opts mo0 checked s)))
           = postedOrders (trace s) @ [mo0\<lparr>amount := a\<rparr>]"
proof (cases checked)
  case (Inl msg)
  then show ?thesis
    by (simp add: buyPlace_def)
next
  case (Inr balanceCheck)
  show ?thesis
  proof (cases "valid balanceCheck")
    case True
    then have "postedOrders (trace (snd (buyPlace c opts mo0 checked s)))
                 = postedOrders (trace s) @ [mo0\<lparr>amount := amount mo0\<rparr>]"
      using Inr by (simp add: buyPlace_def Let_def buySettle_posted called_def postedOrders_append)
    then show ?thesis
      by blast
  next
    case False
    then have "postedOrders (trace (snd (buyPlace c opts mo0 checked s))) = postedOrders (trace s)
               \<or> postedOrders (trace (snd (buyPlace c opts mo0 checked s)))
                   = postedOrders (trace s) @ [mo0\<lparr>amount := available balanceCheck\<rparr>]"
      using Inr by (simp add: buyPlace_def Let_def buySettle_posted called_def postedOrders_append)
    then show ?thesis
      by blast
  qed
qed

lemma copyTradeBuy_posted:
  assumes "tradeToMarketOrder c opts = Inr mo0"
  shows "\<exists>a. postedOrders (trace (snd (copyTradeBuy c opts s))) = postedOrders (trace s)
           \<or> postedOrders (trace (snd (copyTradeBuy c opts s)))
               = postedOrders (trace s) @ [mo0\<lparr>amount := a\<rparr>]"
proof -
  have "\<exists>a. postedOrders (trace (snd (buyPlace c opts mo0 checked
                  (called e3 w3 (called e2 w2 (called e1 w1 s)))))) = postedOrders (trace s)
           \<or> postedOrders (trace (snd (buyPlace c opts mo0 checked
                  (called e3 w3 (called e2 w2 (called e1 w1 s))))))
               = postedOrders (trace s) @ [mo0\<lparr>amount := a\<rparr>]"
    if "postedOrders [e1, e2, e3] = []" for checked e1 e2 e3 w1 w2 w3
    using buyPlace_posted [of c opts mo0 checked "called e3 w3 (called e2 w2 (called e1 w1 s))"] that
    by (simp add: called_def postedOrders_append)
  from this [of UpdateBalanceAllowance DisplayWalletBalance "ValidateBuyOrderBalance (amount mo0)"]
  show ?thesis
    using assms
    by (simp add: copyTradeBuy_def Let_def called_def postedOrders_append split: option.splits)
qed

lemma buySettle_extends: "\<exists>rest. trace (snd (buySettle c tr mo answer s)) = trace s @ rest"
  by (simp add: buySettle_def Let_def called_def split: sum.splits option.splits)

text \<open>
  C4, as stated, fails: a BUY event whose order asks for 0, with 0 available.  The
  balance check reports the order as valid, since 0 covers 0; \<^verbatim>\<open>copyTrade\<close> looks at the
  available balance only when the order is reported not valid, so the order goes to the
  gateway and the result is a success, not the failure "Insufficient USDC balance".
\<close>

theorem buy_zero_balance_still_posts:
  "available (balanceOf 0 0) \<le> 0
   \<and> valid (balanceOf 0 0)
   \<and> postedOrders (trace (snd (copyTrade
         (scriptedExchange (Inr (buyOrder 0)) (balanceOf 0 0) (Inr (Some (filled None None))))
         (copyOf (tradeOf ''BUY'')) (holding 0)))) = [buyOrder 0]
   \<and> success (fst (copyTrade
         (scriptedExchange (Inr (buyOrder 0)) (balanceOf 0 0) (Inr (Some (filled None None))))
         (copyOf (tradeOf ''BUY'')) (holding 0)))"
  using upper_buy by (simp add: run_defs)

text \<open>
  C4, amended.  A BUY event whose order was built and whose balance was displayed and
  checked: the check comes before any order, right after the allowance refresh and
  the display.  If the check reports the order as not valid and nothing is available
  (zero or less), \<^verbatim>\<open>copyTrade\<close> returns the failure "Insufficient USDC balance" at once and
  no order reaches the gateway.  If the check reports the order as not valid and the
  available balance is positive, the next call is the gateway's, the one order it is
  handed is the built order with its amount cut down to exactly the available balance,
  and the result is a success whenever the gateway answers.  The witness has 2
  available for a requested 4 (the submitted amount is 2) and 0 available for a
  requested 4 (a failure, no order).
\<close>

theorem buy_balance_validation:
  fixes c :: "'w collaborators"
  assumes buy: "toUpperCase c (side (trade opts)) \<noteq> ''SELL''"
    and built: "tradeToMarketOrder c opts = Inr mo0"
    and s1: "s1 = called UpdateBalanceAllowance (snd (updateBalanceAllowance c (world s))) s"
    and shown: "displayWalletBalance c (world s1) = (None, w2)"
    and s2: "s2 = called DisplayWalletBalance w2 s1"
    and checked: "validateBuyOrderBalance c (amount mo0) (world s2) = (Inr balanceCheck, w3)"
    and s3: "s3 = called (ValidateBuyOrderBalance (amount mo0)) w3 s2"
    and run: "copyTrade c opts s = (r, s')"
  shows "trace s3 = trace s @ [UpdateBalanceAllowance, DisplayWalletBalance,
                               ValidateBuyOrderBalance (amount mo0)]
         \<and> (\<not> valid balanceCheck \<and> available balanceCheck \<le> 0 \<longrightarrow>
               r = failure (''Insufficient USDC balance. Available: ''
                            @ numberToString c (available balanceCheck))
               \<and> s' = s3
               \<and> postedOrders (trace s') = postedOrders (trace s))
         \<and> (\<not> valid balanceCheck \<and> 0 < available balanceCheck \<longrightarrow>
               postedOrders (trace s')
                 = postedOrders (trace s) @ [mo0\<lparr>amount := available balanceCheck\<rparr>]
               \<and> (\<exists>rest. trace s'
                           = trace s3 @ PostOrder (mo0\<lparr>amount := available balanceCheck\<rparr>)
                                          (orderOptionsOf opts) (orderTypeOf opts) # rest)
               \<and> (\<forall>response.
                     fst (createAndPostMarketOrder c (mo0\<lparr>amount := available balanceCheck\<rparr>)
                            (orderOptionsOf opts) (orderTypeOf opts) (world s3))
                       = Inr (Some response) \<longrightarrow>
                     success r \<and> marketOrder r = Some (mo0\<lparr>amount := available balanceCheck\<rparr>)))"
proof -
  have body: "copyTradeTry c opts s = buyPlace c opts mo0 (Inr balanceCheck) s3"
    by (rule buy_try [OF buy built s1 shown s2 checked s3])
  have before: "postedOrders (trace s3) = postedOrders (trace s)"
    by (simp add: s3 s2 s1 called_def postedOrders_append)
  have checkedFirst: "trace s3 = trace s @ [UpdateBalanceAllowance, DisplayWalletBalance,
                                            ValidateBuyOrderBalance (amount mo0)]"
    by (simp add: s3 s2 s1 called_def)
  have none: "r = failure (''Insufficient USDC balance. Available: ''
                           @ numberToString c (available balanceCheck))
              \<and> s' = s3 \<and> postedOrders (trace s') = postedOrders (trace s)"
    if invalid: "\<not> valid balanceCheck" and empty: "available balanceCheck \<le> 0"
  proof -
    have "copyTradeTry c opts s =
            (Inr (failure (''Insufficient USDC balance. Available: ''
                           @ numberToString c (available balanceCheck))), s3)"
      using invalid empty by (simp add: body buyPlace_insufficient)
    then have "copyTrade c opts s =
                 (failure (''Insufficient USDC balance. Available: ''
                           @ numberToString c (available balanceCheck)), s3)"
      by (rule copyTrade_returned)
    then show ?thesis
      using run before by simp
  qed
  have short: "postedOrders (trace s')
                 = postedOrders (trace s) @ [mo0\<lparr>amount := available balanceCheck\<rparr>]
               \<and> (\<exists>rest. trace s'
                           = trace s3 @ PostOrder (mo0\<lparr>amount := available balanceCheck\<rparr>)
                                          (orderOptionsOf opts) (orderTypeOf opts) # rest)
               \<and> (\<forall>response.
                     fst (createAndPostMarketOrder c (mo0\<lparr>amount := available balanceCheck\<rparr>)
                            (orderOptionsOf opts) (orderTypeOf opts) (world s3))
                       = Inr (Some response) \<longrightarrow>
                     success r \<and> marketOrder r = Some (mo0\<lparr>amount := available balanceCheck\<rparr>))"
    if invalid: "\<not> valid balanceCheck" and some: "0 < available balanceCheck"
  proof -
    define mo where "mo = mo0\<lparr>amount := available balanceCheck\<rparr>"
    define posted where
      "posted = createAndPostMarketOrder c mo (orderOptionsOf opts) (orderTypeOf opts) (world s3)"
    define s4 where
      "s4 = called (PostOrder mo (orderOptionsOf opts) (orderTypeOf opts)) (snd posted) s3"
    have placed: "copyTradeTry c opts s = buySettle c (trade opts) mo (fst posted) s4"
      using invalid some by (simp add: body s4_def buyPlace_clamped [OF _ _ mo_def posted_def])
    have s': "s' = snd (copyTrade c opts s)" and r: "r = fst (copyTrade c opts s)"
      using run by simp_all
    have orders: "postedOrders (trace s') = postedOrders (trace s) @ [mo]"
      by (simp add: s' copyTrade_posted placed buySettle_posted s4_def called_def
          postedOrders_append before)
    obtain rest1 where "trace s' = trace (snd (copyTradeTry c opts s)) @ rest1"
      using copyTrade_extends [of c opts s] s' by auto
    moreover obtain rest2 where "trace (snd (buySettle c (trade opts) mo (fst posted) s4))
                                   = trace s4 @ rest2"
      using buySettle_extends by blast
    ultimately have following: "\<exists>rest. trace s' = trace s3 @ PostOrder mo (orderOptionsOf opts)
                                                     (orderTypeOf opts) # rest"
      by (simp add: placed s4_def called_def)
    have "success r \<and> marketOrder r = Some mo" if "fst posted = Inr (Some response)" for response
    proof -
      have "fst (copyTradeTry c opts s) = Inr (placed response mo)"
        using that by (simp add: placed buySettle_answered)
      then have "r = placed response mo"
        by (simp add: r copyTrade_result)
      then show ?thesis
        by (simp add: placed_def)
    qed
    then show ?thesis
      using orders following by (simp add: mo_def posted_def)
  qed
  show ?thesis
    using checkedFirst none short by blast
qed

theorem buy_balance_validation_witness:
  "map amount (postedOrders (trace (snd (copyTrade
       (scriptedExchange (Inr (buyOrder 4)) (balanceOf 4 2) (Inr (Some (filled None (Some ''5'')))))
       (copyOf (tradeOf ''BUY'')) (holding 0))))) = [2]
   \<and> success (fst (copyTrade
       (scriptedExchange (Inr (buyOrder 4)) (balanceOf 4 2) (Inr (Some (filled None (Some ''5'')))))
       (copyOf (tradeOf ''BUY'')) (holding 0)))
   \<and> fst (copyTrade
       (scriptedExchange (Inr (buyOrder 4)) (balanceOf 4 0) (Inr (Some (filled None (Some ''5'')))))
       (copyOf (tradeOf ''BUY'')) (holding 0))
     = failure ''Insufficient USDC balance. Available: 0''
   \<and> postedOrders (trace (snd (copyTrade
       (scriptedExchange (Inr (buyOrder 4)) (balanceOf 4 0) (Inr (Some (filled None (Some ''5'')))))
       (copyOf (tradeOf ''BUY'')) (holding 0)))) = []"
proof -
  define opts where "opts = copyOf (tradeOf ''BUY'')"
  define answer where "answer = filled None (Some ''5'')"
  define short where "short = scriptedExchange (Inr (buyOrder 4)) (balanceOf 4 2) (Inr (Some answer))"
  define empty where "empty = scriptedExchange (Inr (buyOrder 4)) (balanceOf 4 0) (Inr (Some answer))"
  have buy: "toUpperCase short (side (trade opts)) \<noteq> ''SELL''"
    "toUpperCase empty (side (trade opts)) \<noteq> ''SELL''"
    by (simp_all add: short_def empty_def scripted_upper opts_def copyOf_def tradeOf_def upper_buy)
  have built: "tradeToMarketOrder short opts = Inr (buyOrder 4)"
    "tradeToMarketOrder empty opts = Inr (buyOrder 4)"
    by (simp_all add: short_def empty_def scriptedExchange_def)
  have shown:
    "displayWalletBalance short
       (world (called UpdateBalanceAllowance (snd (updateBalanceAllowance short (world (holding 0))))
                (holding 0))) = (None, Suc (Suc 0))"
    "displayWalletBalance empty
       (world (called UpdateBalanceAllowance (snd (updateBalanceAllowance empty (world (holding 0))))
                (holding 0))) = (None, Suc (Suc 0))"
    by (simp_all add: short_def empty_def scriptedExchange_def called_def holding_def)
  have checkedShort:
    "validateBuyOrderBalance short (amount (buyOrder 4))
       (world (called DisplayWalletBalance (Suc (Suc 0))
          (called UpdateBalanceAllowance (snd (updateBalanceAllowance short (world (holding 0))))
             (holding 0))))
     = (Inr (balanceOf 4 2), Suc (Suc (Suc 0)))"
    by (simp add: short_def scriptedExchange_def called_def)
  have checkedEmpty:
    "validateBuyOrderBalance empty (amount (buyOrder 4))
       (world (called DisplayWalletBalance (Suc (Suc 0))
          (called UpdateBalanceAllowance (snd (updateBalanceAllowance empty (world (holding 0))))
             (holding 0))))
     = (Inr (balanceOf 4 0), Suc (Suc (Suc 0)))"
    by (simp add: empty_def scriptedExchange_def called_def)
  note runShort =
    buy_balance_validation [OF buy(1) built(1) refl shown(1) refl checkedShort refl
      surjective_pairing]
  note runEmpty =
    buy_balance_validation [OF buy(2) built(2) refl shown(2) refl checkedEmpty refl
      surjective_pairing]
  have partial: "\<not> valid (balanceOf 4 2) \<and> 0 < available (balanceOf 4 2)"
    by (simp add: balanceOf_def)
  have nil: "\<not> valid (balanceOf 4 0) \<and> available (balanceOf 4 0) \<le> 0"
    by (simp add: balanceOf_def)
  note clamped = mp [OF conjunct2 [OF conjunct2 [OF runShort]] partial]
  note refused = mp [OF conjunct1 [OF conjunct2 [OF runEmpty]] nil]
  have submitted: "map amount (postedOrders (trace (snd (copyTrade short opts (holding 0))))) = [2]"
    using conjunct1 [OF clamped] by (simp add: holding_def balanceOf_def)
  have accepted: "success (fst (copyTrade short opts (holding 0)))"
    using conjunct2 [OF conjunct2 [OF clamped]] by (simp add: short_def scriptedExchange_def)
  have failed: "fst (copyTrade empty opts (holding 0))
                  = failure ''Insufficient USDC balance. Available: 0''"
    using conjunct1 [OF refused] by (simp add: balanceOf_def empty_def scriptedExchange_def)
  have unposted: "postedOrders (trace (snd (copyTrade empty opts (holding 0)))) = []"
    using conjunct2 [OF conjunct2 [OF refused]] by (simp add: holding_def)
  show ?thesis
    using submitted accepted failed unposted
    by (simp add: short_def empty_def opts_def answer_def)
qed

lemma reconcileBuy_reported:
  assumes "takingAmount response = Some str" "str \<noteq> []" "parseFloat c str = Some q" "0 < q"
  shows "reconcileBuy c tr mo response l = addHoldings l (conditionId tr) (asset tr) q"
  using assms by (simp add: reconcileBuy_def amountOr_def isPositive_def)

lemma reconcileBuy_absent:
  assumes "takingAmount response = None \<or> takingAmount response = Some []"
  shows "reconcileBuy c tr mo response l =
           (if 0 < amount mo / (if price tr \<noteq> 0 then price tr else 1)
            then addHoldings l (conditionId tr) (asset tr)
                   (amount mo / (if price tr \<noteq> 0 then price tr else 1))
            else l)"
  using assms by (auto simp add: reconcileBuy_def amountOr_def isPositive_def Let_def)

lemma reconcileBuy_grows:
  "getHoldings l m t \<le> getHoldings (reconcileBuy c tr mo response l) m t"
  by (auto simp add: reconcileBuy_def Let_def isPositive_def getHoldings_add split: option.splits)

lemma buySettle_grows:
  "getHoldings (ledger s) m t \<le> getHoldings (ledger (snd (buySettle c tr mo answer s))) m t"
  by (simp add: buySettle_def Let_def called_def reconcileBuy_grows split: sum.splits option.splits)

lemma buyPlace_grows:
  "getHoldings (ledger s) m t \<le> getHoldings (ledger (snd (buyPlace c opts mo0 checked s))) m t"
proof -
  have "getHoldings (ledger s) m t
          \<le> getHoldings (ledger (snd (buySettle c tr mo answer (called e w s)))) m t"
    for tr mo answer e w
    using buySettle_grows [of "called e w s" m t c tr mo answer] by (simp add: called_def)
  then show ?thesis
    by (simp add: buyPlace_def Let_def split: sum.splits)
qed

lemma copyTradeBuy_grows:
  "getHoldings (ledger s) m t \<le> getHoldings (ledger (snd (copyTradeBuy c opts s))) m t"
proof -
  have "getHoldings (ledger s) m t
          \<le> getHoldings (ledger (snd (buyPlace c opts mo0 checked
                 (called e3 w3 (called e2 w2 (called e1 w1 s)))))) m t"
    for mo0 checked e1 e2 e3 w1 w2 w3
    using buyPlace_grows [of "called e3 w3 (called e2 w2 (called e1 w1 s))" m t c opts mo0 checked]
    by (simp add: called_def)
  then show ?thesis
    by (simp add: copyTradeBuy_def Let_def called_def split: sum.splits option.splits)
qed

lemma copyTrade_ledger:
  "ledger (snd (copyTrade c opts s)) = ledger (snd (copyTradeTry c opts s))"
  by (cases "copyTradeTry c opts s") (simp add: copyTrade_def ledger_diagnose split: sum.splits)

lemma buyPlace_extends: "\<exists>rest. trace (snd (buyPlace c opts mo0 checked s)) = trace s @ rest"
proof -
  have "\<exists>rest. trace (snd (buySettle c tr mo answer (called e w s))) = trace s @ rest"
    for tr mo answer e w
    using buySettle_extends [of c tr mo answer "called e w s"] by (auto simp add: called_def)
  then show ?thesis
    by (simp add: buyPlace_def Let_def split: sum.splits)
qed

lemma buySettle_ledger:
  "ledger (snd (buySettle c tr mo (Inr (Some response)) s))
     = reconcileBuy c tr mo response (ledger s)"
  by (simp add: buySettle_def Let_def called_def)

lemma buyPlace_proceeds:
  assumes "valid balanceCheck \<or> 0 < available balanceCheck"
    and "mo = (if \<not> valid balanceCheck then mo0\<lparr>amount := available balanceCheck\<rparr> else mo0)"
    and "posted = createAndPostMarketOrder c mo (orderOptionsOf opts) (orderTypeOf opts) (world s)"
  shows "buyPlace c opts mo0 (Inr balanceCheck) s =
           buySettle c (trade opts) mo (fst posted)
             (called (PostOrder mo (orderOptionsOf opts) (orderTypeOf opts)) (snd posted) s)"
  using assms by (auto simp add: buyPlace_def Let_def)

lemma reconcileBuy_increment:
  "getHoldings (reconcileBuy c tr mo response l) (conditionId tr) (asset tr)
     = getHoldings l (conditionId tr) (asset tr)
       + (if isPositive (amountOr (parseFloat c) (takingAmount response) 0)
          then the (amountOr (parseFloat c) (takingAmount response) 0)
          else max 0 (amount mo / (if price tr \<noteq> 0 then price tr else 1)))"
  by (simp add: reconcileBuy_def Let_def getHoldings_add max_def)

text \<open>
  C10.  An event whose side does not read SELL once upper-cased, whatever else it
  reads, is handled by the BUY branch, step by step.  The holdings are not consulted
  and no quantity of the ledger goes down.  The order is built from the trade first;
  if that throws, the result is the failure with that message and nothing else
  happens.  Once the order is built, the allowance is refreshed and the balance
  displayed; the display having returned, the balance is validated for the amount of
  the built order; the check having returned and not found the balance empty, the
  gateway is handed exactly one order, the built one, its amount cut down to the
  available balance if the check found it not valid; and the gateway having answered,
  the result is the success that carries this order and the ledger entry of the
  event's market and token has grown by the tokens the answer reports received, or,
  without a positive report, by the estimate when that is positive.  The witness is an
  event with the side "hold", which ends with 5 tokens added to the ledger.
\<close>

theorem other_sides_take_buy_branch:
  fixes c :: "'w collaborators"
  assumes other: "toUpperCase c (side (trade opts)) \<noteq> ''SELL''"
    and s1: "s1 = called UpdateBalanceAllowance (snd (updateBalanceAllowance c (world s))) s"
    and s2: "s2 = called DisplayWalletBalance (snd (displayWalletBalance c (world s1))) s1"
    and run: "copyTrade c opts s = (r, s')"
  shows "copyTradeTry c opts s = copyTradeBuy c opts s
         \<and> (\<forall>m t. getHoldings (ledger s) m t \<le> getHoldings (ledger s') m t)
         \<and> (\<forall>msg. tradeToMarketOrder c opts = Inl msg \<longrightarrow>
               r = failure msg \<and> ledger s' = ledger s
               \<and> postedOrders (trace s') = postedOrders (trace s))
         \<and> (\<forall>mo0. tradeToMarketOrder c opts = Inr mo0 \<longrightarrow>
               (\<exists>rest. trace s' = trace s @ UpdateBalanceAllowance # DisplayWalletBalance # rest)
               \<and> (\<exists>a. postedOrders (trace s') = postedOrders (trace s)
                      \<or> postedOrders (trace s') = postedOrders (trace s) @ [mo0\<lparr>amount := a\<rparr>])
               \<and> (fst (displayWalletBalance c (world s1)) = None \<longrightarrow>
                    (\<exists>rest. trace s' = trace s @ UpdateBalanceAllowance # DisplayWalletBalance
                                         # ValidateBuyOrderBalance (amount mo0) # rest)
                    \<and> (\<forall>balanceCheck s3 mo.
                          fst (validateBuyOrderBalance c (amount mo0) (world s2)) = Inr balanceCheck
                          \<and> s3 = called (ValidateBuyOrderBalance (amount mo0))
                                   (snd (validateBuyOrderBalance c (amount mo0) (world s2))) s2
                          \<and> mo = (if \<not> valid balanceCheck
                                  then mo0\<lparr>amount := available balanceCheck\<rparr> else mo0)
                          \<and> (valid balanceCheck \<or> 0 < available balanceCheck) \<longrightarrow>
                          postedOrders (trace s') = postedOrders (trace s) @ [mo]
                          \<and> (\<forall>response.
                                fst (createAndPostMarketOrder c mo (orderOptionsOf opts)
                                       (orderTypeOf opts) (world s3)) = Inr (Some response) \<longrightarrow>
                                r = placed response mo
                                \<and> ledger s' = reconcileBuy c (trade opts) mo response (ledger s)
                                \<and> getHoldings (ledger s') (conditionId (trade opts))
                                      (asset (trade opts))
                                    = getHoldings (ledger s) (conditionId (trade opts))
                                        (asset (trade opts))
                                      + (if isPositive
                                              (amountOr (parseFloat c) (takingAmount response) 0)
                                         then the (amountOr (parseFloat c)
                                                     (takingAmount response) 0)
                                         else max 0 (amount mo
                                                / (if price (trade opts) \<noteq> 0
                                                   then price (trade opts) else 1)))))))"
proof (intro conjI allI impI)
  have s': "s' = snd (copyTrade c opts s)" and r: "r = fst (copyTrade c opts s)"
    using run by simp_all
  show branch: "copyTradeTry c opts s = copyTradeBuy c opts s"
    using other by (simp add: copyTradeTry_def)
  show "getHoldings (ledger s) m t \<le> getHoldings (ledger s') m t" for m t
    by (simp add: s' copyTrade_ledger branch copyTradeBuy_grows)
  {
    fix msg
    assume thrown: "tradeToMarketOrder c opts = Inl msg"
    then have body: "copyTradeTry c opts s = (Inl msg, s)"
      by (simp add: branch copyTradeBuy_def)
    then show "r = failure msg"
      by (simp add: r copyTrade_def)
    show "ledger s' = ledger s"
      by (simp add: s' copyTrade_ledger body)
    show "postedOrders (trace s') = postedOrders (trace s)"
      by (simp add: s' copyTrade_posted body)
  }
  fix mo0
  assume built: "tradeToMarketOrder c opts = Inr mo0"
  define shown where "shown = displayWalletBalance c (world s1)"
  define checked where "checked = validateBuyOrderBalance c (amount mo0) (world s2)"
  define s3 where "s3 = called (ValidateBuyOrderBalance (amount mo0)) (snd checked) s2"
  have t2: "trace s2 = trace s @ [UpdateBalanceAllowance, DisplayWalletBalance]"
    by (simp add: s2 s1 called_def)
  have t3: "trace s3 = trace s @ [UpdateBalanceAllowance, DisplayWalletBalance,
                                  ValidateBuyOrderBalance (amount mo0)]"
    by (simp add: s3_def t2 called_def)
  have l3: "ledger s3 = ledger s"
    by (simp add: s3_def s2 s1 called_def)
  have body: "copyTradeBuy c opts s =
                (case fst shown of
                   Some msg \<Rightarrow> (Inl msg, s2)
                 | None \<Rightarrow> buyPlace c opts mo0 (fst checked) s3)"
    using built
    by (simp add: copyTradeBuy_def Let_def s1 shown_def s2 checked_def s3_def
        split: option.splits)
  obtain rest1 where rest1: "trace s' = trace (snd (copyTradeBuy c opts s)) @ rest1"
    using copyTrade_extends [of c opts s] branch s' by auto
  obtain rest2 where rest2: "trace (snd (buyPlace c opts mo0 (fst checked) s3)) = trace s3 @ rest2"
    using buyPlace_extends by blast
  show "\<exists>rest. trace s' = trace s @ UpdateBalanceAllowance # DisplayWalletBalance # rest"
    by (cases "fst shown") (simp_all add: rest1 body t2 rest2 t3)
  show "\<exists>a. postedOrders (trace s') = postedOrders (trace s)
            \<or> postedOrders (trace s') = postedOrders (trace s) @ [mo0\<lparr>amount := a\<rparr>]"
    using copyTradeBuy_posted [OF built, of s] other
    by (simp add: s' copyTrade_posted copyTradeTry_def)
  assume "fst (displayWalletBalance c (world s1)) = None"
  then have displayed: "fst shown = None"
    by (simp add: shown_def)
  then show "\<exists>rest. trace s' = trace s @ UpdateBalanceAllowance # DisplayWalletBalance
                                  # ValidateBuyOrderBalance (amount mo0) # rest"
    by (simp add: rest1 body rest2 t3)
  have placing: "copyTradeTry c opts s = buyPlace c opts mo0 (fst checked) s3"
    using displayed by (simp add: branch body)
  fix balanceCheck s3' mo
  assume path: "fst (validateBuyOrderBalance c (amount mo0) (world s2)) = Inr balanceCheck
                \<and> s3' = called (ValidateBuyOrderBalance (amount mo0))
                          (snd (validateBuyOrderBalance c (amount mo0) (world s2))) s2
                \<and> mo = (if \<not> valid balanceCheck
                        then mo0\<lparr>amount := available balanceCheck\<rparr> else mo0)
                \<and> (valid balanceCheck \<or> 0 < available balanceCheck)"
  then have same: "s3' = s3" and passed: "fst checked = Inr balanceCheck"
    and mo: "mo = (if \<not> valid balanceCheck then mo0\<lparr>amount := available balanceCheck\<rparr> else mo0)"
    and enough: "valid balanceCheck \<or> 0 < available balanceCheck"
    by (simp_all add: s3_def checked_def)
  define posted where
    "posted = createAndPostMarketOrder c mo (orderOptionsOf opts) (orderTypeOf opts) (world s3)"
  define s4 where
    "s4 = called (PostOrder mo (orderOptionsOf opts) (orderTypeOf opts)) (snd posted) s3"
  have settling: "copyTradeTry c opts s = buySettle c (trade opts) mo (fst posted) s4"
    by (simp add: placing passed s4_def buyPlace_proceeds [OF enough mo posted_def])
  have l4: "ledger s4 = ledger s"
    by (simp add: s4_def called_def l3)
  show "postedOrders (trace s') = postedOrders (trace s) @ [mo]"
    by (simp add: s' copyTrade_posted settling buySettle_posted s4_def called_def
        postedOrders_append t3)
  fix response
  assume "fst (createAndPostMarketOrder c mo (orderOptionsOf opts) (orderTypeOf opts) (world s3'))
            = Inr (Some response)"
  then have answered: "fst posted = Inr (Some response)"
    by (simp add: posted_def same)
  have "fst (copyTradeTry c opts s) = Inr (placed response mo)"
    by (simp add: settling answered buySettle_answered)
  then show "r = placed response mo"
    by (simp add: r copyTrade_result)
  show reconciled: "ledger s' = reconcileBuy c (trade opts) mo response (ledger s)"
    by (simp add: s' copyTrade_ledger settling answered buySettle_ledger l4)
  show "getHoldings (ledger s') (conditionId (trade opts)) (asset (trade opts))
          = getHoldings (ledger s) (conditionId (trade opts)) (asset (trade opts))
            + (if isPositive (amountOr (parseFloat c) (takingAmount response) 0)
               then the (amountOr (parseFloat c) (takingAmount response) 0)
               else max 0 (amount mo
                      / (if price (trade opts) \<noteq> 0 then price (trade opts) else 1)))"
    by (simp only: reconciled reconcileBuy_increment)
qed

lemma upper_hold: "asciiUpperCase ''hold'' \<noteq> ''SELL''"
  by code_simp

theorem other_sides_take_buy_branch_witness:
  "toUpperCase
     (scriptedExchange (Inr (buyOrder 4)) (balanceOf 4 10) (Inr (Some (filled None (Some ''5'')))))
     (side (trade (copyOf (tradeOf ''hold'')))) \<noteq> ''SELL''
   \<and> map amount (postedOrders (trace (snd (copyTrade
        (scriptedExchange (Inr (buyOrder 4)) (balanceOf 4 10) (Inr (Some (filled None (Some ''5'')))))
        (copyOf (tradeOf ''hold'')) (holding 0))))) = [4]
   \<and> success (fst (copyTrade
        (scriptedExchange (Inr (buyOrder 4)) (balanceOf 4 10) (Inr (Some (filled None (Some ''5'')))))
        (copyOf (tradeOf ''hold'')) (holding 0)))
   \<and> getHoldings (ledger (snd (copyTrade
        (scriptedExchange (Inr (buyOrder 4)) (balanceOf 4 10) (Inr (Some (filled None (Some ''5'')))))
        (copyOf (tradeOf ''hold'')) (holding 0)))) ''m'' ''t'' = 5"
proof -
  define opts where "opts = copyOf (tradeOf ''hold'')"
  define answer where "answer = filled None (Some ''5'')"
  define c where "c = scriptedExchange (Inr (buyOrder 4)) (balanceOf 4 10) (Inr (Some answer))"
  define s1 where
    "s1 = called UpdateBalanceAllowance (snd (updateBalanceAllowance c (world (holding 0))))
            (holding 0)"
  define s2 where "s2 = called DisplayWalletBalance (snd (displayWalletBalance c (world s1))) s1"
  define s3 where
    "s3 = called (ValidateBuyOrderBalance (amount (buyOrder 4)))
            (snd (validateBuyOrderBalance c (amount (buyOrder 4)) (world s2))) s2"
  have other: "toUpperCase c (side (trade opts)) \<noteq> ''SELL''"
    by (simp add: c_def scripted_upper opts_def copyOf_def tradeOf_def upper_hold)
  have key: "conditionId (trade opts) = ''m''" "asset (trade opts) = ''t''"
    by (simp_all add: opts_def copyOf_def tradeOf_def)
  have built: "tradeToMarketOrder c opts = Inr (buyOrder 4)"
    by (simp add: c_def scriptedExchange_def)
  have displayed: "fst (displayWalletBalance c (world s1)) = None"
    by (simp add: c_def scriptedExchange_def)
  have path: "fst (validateBuyOrderBalance c (amount (buyOrder 4)) (world s2)) = Inr (balanceOf 4 10)
              \<and> s3 = called (ValidateBuyOrderBalance (amount (buyOrder 4)))
                       (snd (validateBuyOrderBalance c (amount (buyOrder 4)) (world s2))) s2
              \<and> buyOrder 4 = (if \<not> valid (balanceOf 4 10)
                               then (buyOrder 4)\<lparr>amount := available (balanceOf 4 10)\<rparr>
                               else buyOrder 4)
              \<and> (valid (balanceOf 4 10) \<or> 0 < available (balanceOf 4 10))"
    by (simp add: s3_def c_def scriptedExchange_def balanceOf_def)
  have answered: "fst (createAndPostMarketOrder c (buyOrder 4) (orderOptionsOf opts)
                        (orderTypeOf opts) (world s3)) = Inr (Some answer)"
    by (simp add: c_def scriptedExchange_def)
  note branch = other_sides_take_buy_branch [OF other s1_def s2_def surjective_pairing]
  note onceBuilt = mp [OF spec [OF conjunct2 [OF conjunct2 [OF conjunct2 [OF branch]]]] built]
  note onceShown = mp [OF conjunct2 [OF conjunct2 [OF onceBuilt]] displayed]
  note onceChecked =
    mp [OF spec [OF spec [OF spec [OF conjunct2 [OF onceShown]]]] path]
  note onceAnswered = mp [OF spec [OF conjunct2 [OF onceChecked]] answered]
  have submitted: "map amount (postedOrders (trace (snd (copyTrade c opts (holding 0))))) = [4]"
    using conjunct1 [OF onceChecked] by (simp add: holding_def buyOrder_def)
  have accepted: "success (fst (copyTrade c opts (holding 0)))"
    using conjunct1 [OF onceAnswered] by (simp add: placed_def)
  have credited: "getHoldings (ledger (snd (copyTrade c opts (holding 0)))) ''m'' ''t'' = 5"
    using conjunct2 [OF conjunct2 [OF onceAnswered]]
    by (simp add: key holding_def getHoldings_def answer_def filled_def amountOr_def
        isPositive_def c_def scriptedExchange_def)
  show ?thesis
    using other submitted accepted credited by (simp add: c_def opts_def answer_def)
qed

text \<open>
  C2.  A BUY event that reaches execution, at price 1/2 with 4 submitted, whose
  gateway response reports the tokens-received figure "0": the ledger, empty before,
  holds 8 afterwards, the estimate 4 / (1/2), not the reported figure.
\<close>

theorem buy_zero_fill_adds_estimate:
  "takingAmount (filled None (Some ''0'')) = Some ''0''
   \<and> parseFloat
        (scriptedExchange (Inr (buyOrder 4)) (balanceOf 4 10) (Inr (Some (filled None (Some ''0'')))))
        ''0'' = Some 0
   \<and> getHoldings (ledger (holding 0)) ''m'' ''t'' = 0
   \<and> getHoldings (ledger (snd (copyTrade
        (scriptedExchange (Inr (buyOrder 4)) (balanceOf 4 10) (Inr (Some (filled None (Some ''0'')))))
        (copyOf (tradeOf ''BUY'')) (holding 0)))) ''m'' ''t'' = 8"
  using upper_buy by (simp add: run_defs)

section \<open>Errors\<close>

lemma sellSettle_shape:
  "sellSettle c tr mo answer s = (Inr res, s1) \<Longrightarrow> \<exists>response. res = placed response mo"
  by (auto simp add: sellSettle_def Let_def split: sum.splits option.splits)

lemma buySettle_shape:
  "buySettle c tr mo answer s = (Inr res, s1) \<Longrightarrow> \<exists>response. res = placed response mo"
  by (auto simp add: buySettle_def Let_def split: sum.splits option.splits)

lemma buyPlace_shape:
  "buyPlace c opts mo0 checked s = (Inr res, s1) \<Longrightarrow>
   (\<exists>msg. res = failure msg) \<or> (\<exists>response mo. res = placed response mo)"
  by (auto simp add: buyPlace_def Let_def split: sum.splits if_splits dest: buySettle_shape)

lemma copyTradeTry_shape:
  assumes "copyTradeTry c opts s = (Inr res, s1)"
  shows "(\<exists>msg. res = failure msg) \<or> (\<exists>response mo. res = placed response mo)"
proof (cases "toUpperCase c (side (trade opts)) = ''SELL''")
  case True
  then show ?thesis
    using assms
    by (auto simp add: copyTradeTry_def copyTradeSell_def Let_def split: if_splits
        dest: sellSettle_shape)
next
  case False
  then show ?thesis
    using assms
    by (auto simp add: copyTradeTry_def copyTradeBuy_def Let_def split: sum.splits option.splits
        dest: buyPlace_shape)
qed

lemma trace_diagnose:
  "trace (diagnose c s) =
     (case fst (displayWalletBalance c (world s)) of
        None \<Rightarrow> trace s @ [DisplayWalletBalance, UpdateBalanceAllowance]
      | Some displayError \<Rightarrow> trace s @ [DisplayWalletBalance])"
  by (simp add: diagnose_def Let_def called_def split: option.splits)

text \<open>
  C7.  \<^verbatim>\<open>copyTrade\<close> always returns a result: a success, or a failure that carries an
  error message.  Whenever an error is thrown inside (by the order construction, the
  balance display, the balance check or the gateway, or by reading a response that is
  not there), the result is the failure with the message of that error.  If the
  message mentions "not enough balance" or "allowance", the diagnostic pass runs before
  the result is returned: the balance is displayed and, the display having returned,
  the allowance is refreshed; the ledger is not touched; the reported error is still
  the original one.  An error with any other message leaves the state as it was when
  thrown.
\<close>

theorem copyTrade_returns_failures:
  fixes c :: "'w collaborators"
  shows "(success (fst (copyTrade c opts s)) \<longrightarrow> error (fst (copyTrade c opts s)) = None)
         \<and> (\<not> success (fst (copyTrade c opts s)) \<longrightarrow>
               (\<exists>msg. error (fst (copyTrade c opts s)) = Some msg))
         \<and> (\<forall>msg s1. copyTradeTry c opts s = (Inl msg, s1) \<longrightarrow>
               fst (copyTrade c opts s) = failure msg
               \<and> \<not> success (fst (copyTrade c opts s))
               \<and> error (fst (copyTrade c opts s)) = Some msg
               \<and> (\<not> isBalanceOrAllowanceError msg \<longrightarrow> snd (copyTrade c opts s) = s1)
               \<and> (isBalanceOrAllowanceError msg \<longrightarrow>
                     ledger (snd (copyTrade c opts s)) = ledger s1
                     \<and> trace (snd (copyTrade c opts s))
                         = (case fst (displayWalletBalance c (world s1)) of
                              None \<Rightarrow> trace s1 @ [DisplayWalletBalance, UpdateBalanceAllowance]
                            | Some displayError \<Rightarrow> trace s1 @ [DisplayWalletBalance])))"
proof (intro conjI allI impI)
  obtain outcome s1 where body: "copyTradeTry c opts s = (outcome, s1)"
    by (cases "copyTradeTry c opts s")
  show "error (fst (copyTrade c opts s)) = None" if "success (fst (copyTrade c opts s))"
  proof (cases outcome)
    case (Inl msg)
    then show ?thesis
      using that body by (simp add: copyTrade_def failure_def)
  next
    case (Inr res)
    then have "fst (copyTrade c opts s) = res"
      using body by (simp add: copyTrade_def)
    then show ?thesis
      using that copyTradeTry_shape [of c opts s res s1] body Inr
      by (auto simp add: failure_def placed_def)
  qed
  show "\<exists>msg. error (fst (copyTrade c opts s)) = Some msg" if "\<not> success (fst (copyTrade c opts s))"
  proof (cases outcome)
    case (Inl msg)
    then show ?thesis
      using body by (simp add: copyTrade_def failure_def)
  next
    case (Inr res)
    then have "fst (copyTrade c opts s) = res"
      using body by (simp add: copyTrade_def)
    then show ?thesis
      using that copyTradeTry_shape [of c opts s res s1] body Inr
      by (auto simp add: failure_def placed_def)
  qed
next
  fix msg s1
  assume thrown: "copyTradeTry c opts s = (Inl msg, s1)"
  show "fst (copyTrade c opts s) = failure msg"
    using thrown by (simp add: copyTrade_def)
  then show "\<not> success (fst (copyTrade c opts s))" "error (fst (copyTrade c opts s)) = Some msg"
    by (simp_all add: failure_def)
  show "snd (copyTrade c opts s) = s1" if "\<not> isBalanceOrAllowanceError msg"
    using thrown that by (simp add: copyTrade_def)
  assume "isBalanceOrAllowanceError msg"
  then have "snd (copyTrade c opts s) = diagnose c s1"
    using thrown by (simp add: copyTrade_def)
  then show "ledger (snd (copyTrade c opts s)) = ledger s1"
    "trace (snd (copyTrade c opts s))
       = (case fst (displayWalletBalance c (world s1)) of
            None \<Rightarrow> trace s1 @ [DisplayWalletBalance, UpdateBalanceAllowance]
          | Some displayError \<Rightarrow> trace s1 @ [DisplayWalletBalance])"
    by (simp_all add: ledger_diagnose trace_diagnose)
qed

theorem copyTrade_returns_failures_witness:
  "fst (copyTrade
     (scriptedExchange (Inr (buyOrder 4)) (balanceOf 4 10) (Inl ''not enough balance / allowance''))
     (copyOf (tradeOf ''BUY'')) (holding 0))
   = failure ''not enough balance / allowance''
   \<and> trace (snd (copyTrade
     (scriptedExchange (Inr (buyOrder 4)) (balanceOf 4 10) (Inl ''not enough balance / allowance''))
     (copyOf (tradeOf ''BUY'')) (holding 0)))
   = [UpdateBalanceAllowance, DisplayWalletBalance, ValidateBuyOrderBalance 4,
      PostOrder (buyOrder 4) \<lparr>tickSize = ''0.01'', negRisk = False\<rparr> FAK,
      DisplayWalletBalance, UpdateBalanceAllowance]"
proof -
  define c where
    "c = scriptedExchange (Inr (buyOrder 4)) (balanceOf 4 10)
           (Inl ''not enough balance / allowance'')"
  define opts where "opts = copyOf (tradeOf ''BUY'')"
  define s1 where "s1 = snd (copyTradeTry c opts (holding 0))"
  have "fst (copyTradeTry c opts (holding 0)) = Inl ''not enough balance / allowance''"
    using upper_buy by (simp add: c_def opts_def run_defs)
  then have thrown: "copyTradeTry c opts (holding 0) = (Inl ''not enough balance / allowance'', s1)"
    by (simp add: s1_def prod_eq_iff)
  have s1: "trace s1 = [UpdateBalanceAllowance, DisplayWalletBalance, ValidateBuyOrderBalance 4,
                        PostOrder (buyOrder 4) \<lparr>tickSize = ''0.01'', negRisk = False\<rparr> FAK]"
    using upper_buy by (simp add: s1_def c_def opts_def run_defs)
  have balance: "isBalanceOrAllowanceError ''not enough balance / allowance''"
    by (simp add: isBalanceOrAllowanceError_def)
  have display: "fst (displayWalletBalance c (world s1)) = None"
    by (simp add: c_def scriptedExchange_def)
  note caught =
    mp [OF spec [OF spec [OF conjunct2 [OF conjunct2 [OF
      copyTrade_returns_failures [of c opts "holding 0"]]]]] thrown]
  have reported: "fst (copyTrade c opts (holding 0)) = failure ''not enough balance / allowance''"
    using conjunct1 [OF caught] .
  have diagnosed:
    "trace (snd (copyTrade c opts (holding 0)))
       = trace s1 @ [DisplayWalletBalance, UpdateBalanceAllowance]"
    using conjunct2 [OF mp [OF conjunct2 [OF conjunct2 [OF conjunct2 [OF conjunct2 [OF caught]]]]
                       balance]]
    by (simp add: display)
  show ?thesis
    using reported diagnosed by (simp add: s1 c_def opts_def)
qed

section \<open>The trade monitor\<close>

lemma copyInvocations_append:
  "copyInvocations (xs @ ys) = copyInvocations xs @ copyInvocations ys"
  by (induction xs rule: copyInvocations.induct) simp_all

lemma sellSettle_invocations:
  "copyInvocations (trace (snd (sellSettle c tr mo answer s))) = copyInvocations (trace s)"
  by (simp add: sellSettle_def Let_def split: sum.splits option.splits)

lemma buySettle_invocations:
  "copyInvocations (trace (snd (buySettle c tr mo answer s))) = copyInvocations (trace s)"
  by (simp add: buySettle_def Let_def called_def copyInvocations_append
      split: sum.splits option.splits)

lemma buyPlace_invocations:
  "copyInvocations (trace (snd (buyPlace c opts mo0 checked s))) = copyInvocations (trace s)"
  by (simp add: buyPlace_def Let_def buySettle_invocations called_def copyInvocations_append
      split: sum.splits)

lemma diagnose_invocations:
  "copyInvocations (trace (diagnose c s)) = copyInvocations (trace s)"
  by (simp add: trace_diagnose copyInvocations_append split: option.splits)

lemma copyTradeTry_invocations:
  "copyInvocations (trace (snd (copyTradeTry c opts s))) = copyInvocations (trace s)"
  by (simp add: copyTradeTry_def copyTradeSell_def copyTradeBuy_def Let_def
      sellSettle_invocations buyPlace_invocations called_def copyInvocations_append
      split: sum.splits option.splits)

lemma copyTrade_invocations:
  "copyInvocations (trace (snd (copyTrade c opts s))) = copyInvocations (trace s)"
  by (cases "copyTradeTry c opts s")
     (use copyTradeTry_invocations [of c opts s] in
       \<open>simp add: copyTrade_def diagnose_invocations split: sum.splits\<close>)

lemma forward_invocations:
  "copyInvocations (trace (core (forward c opts a)))
     = copyInvocations (trace (core a)) @ [opts]"
  by (simp add: forward_def Let_def logs_def copyTrade_invocations copyInvocations_append)

lemma forward_paused: "isCopyTradingPaused (forward c opts a) = isCopyTradingPaused a"
  by (simp add: forward_def Let_def logs_def)

lemma onMessage_paused:
  "isCopyTradingPaused (snd (onMessage cfg ob msg a)) = isCopyTradingPaused a"
  by (simp add: onMessage_def Let_def logs_def forward_paused)

lemma lower_target: "toLowerCase ''0xAbC'' = toLowerCase ''0xaBc''"
  by code_simp

text \<open>
  C6, as stated, fails: a trade event from the tracked wallet, with copy trading enabled
  and the pause flag clear, is not forwarded when the exchange client could not be
  initialised at start-up and the order builder therefore does not exist.
\<close>

theorem monitor_needs_order_builder:
  "fromTargetWallet (watching True None) (payload (tradeMessage (tradeOf ''BUY'')))
   \<and> enableCopyTrading (watching True None)
   \<and> \<not> isCopyTradingPaused (initialApp (holding 0))
   \<and> copyInvocations (trace (core (snd (onMessage (watching True None)
          (initOrderBuilder True (Inl ''Credential file not found. Run createCredential() first.''))
          (tradeMessage (tradeOf ''BUY'')) (initialApp (holding 0)))))) = []
   \<and> logged (snd (onMessage (watching True None)
          (initOrderBuilder True (Inl ''Credential file not found. Run createCredential() first.''))
          (tradeMessage (tradeOf ''BUY'')) (initialApp (holding 0))))
     = [TradeDetected (tradeOf ''BUY''), TradeDetails (tradeOf ''BUY''), BuilderNotAvailable]"
  using lower_target
  by (simp add: fromTargetWallet_def watching_def tradeMessage_def tradeOf_def initialApp_def
      holding_def onMessage_def initOrderBuilder_def logs_def dateInRange_def Let_def)

text \<open>
  C6, amended.  For a trade event (topic "activity", type "trades") whose timestamp is
  a date: \<^verbatim>\<open>copyTrade\<close> is invoked, once and with the configured options, if and only if
  the event's wallet equals the tracked wallet up to case, an order builder exists,
  copy trading is enabled and the pause flag is clear.  An event from another wallet
  changes nothing.  An event from the tracked wallet that arrives while paused is
  logged, and the ledger, the world and the trace stay as they were.
\<close>

theorem monitor_forwards:
  fixes a :: "'w app"
  assumes activity: "topic msg = ''activity''" and trades: "msgType msg = ''trades''"
    and date: "dateInRange (timestamp (payload msg) * 1000)"
  shows "copyInvocations (trace (core (snd (onMessage cfg orderBuilder msg a))))
           = copyInvocations (trace (core a))
             @ (if fromTargetWallet cfg (payload msg) \<and> orderBuilder \<noteq> None
                   \<and> enableCopyTrading cfg \<and> \<not> isCopyTradingPaused a
                then [copyOptions cfg (payload msg)] else [])
         \<and> (\<not> fromTargetWallet cfg (payload msg) \<longrightarrow> snd (onMessage cfg orderBuilder msg a) = a)
         \<and> (fromTargetWallet cfg (payload msg) \<and> isCopyTradingPaused a \<longrightarrow>
               core (snd (onMessage cfg orderBuilder msg a)) = core a
               \<and> TradeDetected (payload msg) \<in> set (logged (snd (onMessage cfg orderBuilder msg a))))"
  using assms
  by (simp add: onMessage_def Let_def logs_def forward_invocations)

theorem monitor_forwards_witness:
  "copyInvocations (trace (core (snd (onMessage (watching True None)
      (Some (scriptedExchange (Inr (buyOrder 4)) (balanceOf 4 10)
               (Inr (Some (filled None (Some ''5''))))))
      (tradeMessage (tradeOf ''BUY'')) (initialApp (holding 0))))))
   = [copyOptions (watching True None) (tradeOf ''BUY'')]"
proof -
  have activity: "topic (tradeMessage (tradeOf ''BUY'')) = ''activity''"
    and trades: "msgType (tradeMessage (tradeOf ''BUY'')) = ''trades''"
    by (simp_all add: tradeMessage_def)
  have date: "dateInRange (timestamp (payload (tradeMessage (tradeOf ''BUY''))) * 1000)"
    by (simp add: tradeMessage_def tradeOf_def dateInRange_def)
  have wallet: "fromTargetWallet (watching True None) (payload (tradeMessage (tradeOf ''BUY'')))"
    using lower_target by (simp add: fromTargetWallet_def watching_def tradeMessage_def tradeOf_def)
  show ?thesis
    using conjunct1 [OF monitor_forwards [OF activity trades date,
        of "watching True None"
           "Some (scriptedExchange (Inr (buyOrder 4)) (balanceOf 4 10)
                    (Inr (Some (filled None (Some ''5'')))))"
           "initialApp (holding 0)"]] wallet
    by (simp add: watching_def initialApp_def holding_def tradeMessage_def)
qed

section \<open>The redemption timer\<close>

text \<open>
  C5.  Whatever the sweep does, return its counts or throw, \<^verbatim>\<open>performRedemption\<close> ends
  with the pause flag clear and with the resumption logged last; the flag was set
  when the sweep was started, and was clear again whatever state the sweep left.
\<close>

theorem redemption_always_resumes:
  fixes a :: "'w app"
  shows "isCopyTradingPaused (performRedemption sweep a) = False
         \<and> last (logged (performRedemption sweep a)) = CopyTradingResumed
         \<and> isCopyTradingPaused (redemptionBegin a) = True
         \<and> isCopyTradingPaused (redemptionEnd (Inl err) b) = False
         \<and> isCopyTradingPaused (redemptionEnd (Inr counts) b) = False
         \<and> core (performRedemption sweep a) = snd (sweep 3 (core a))"
  by (simp add: performRedemption_def redemptionBegin_def redemptionEnd_def logs_def Let_def
      split: sum.splits)

lemma onMessage_logged:
  "RedemptionStarting \<in> set (logged (snd (onMessage cfg ob msg a)))
     \<longleftrightarrow> RedemptionStarting \<in> set (logged a)"
  by (simp add: onMessage_def Let_def logs_def forward_def)

lemma no_interval:
  assumes "redeemDurationMinutes cfg = readRedeemDuration parseInt var"
    and "var = None \<or> (\<exists>str. var = Some str \<and> (str = [] \<or> parseInt str = Some 0))"
  shows "redeemIntervalMs cfg = None"
  using assms by (auto simp add: redeemIntervalMs_def readRedeemDuration_def)

text \<open>
  C9.  When the variable \<^verbatim>\<open>REDEEM_DURATION\<close> is unset or empty, or reads as zero, \<^verbatim>\<open>main\<close>
  installs no timer, and in every state the program can reach the pause flag is clear
  and no redemption has been started.
\<close>

theorem no_interval_no_redemption:
  fixes a :: "'w app"
  assumes loaded: "redeemDurationMinutes cfg = readRedeemDuration parseInt var"
    and off: "var = None \<or> (\<exists>str. var = Some str \<and> (str = [] \<or> parseInt str = Some 0))"
    and reach: "reachable cfg orderBuilder s0 a"
  shows "redeemIntervalMs cfg = None
         \<and> \<not> isCopyTradingPaused a
         \<and> RedemptionStarting \<notin> set (logged a)"
proof -
  have none: "redeemIntervalMs cfg = None"
    by (rule no_interval [OF loaded off])
  have "\<not> isCopyTradingPaused a \<and> RedemptionStarting \<notin> set (logged a)"
    using reach
  proof (induction rule: reachable.induct)
    case started
    show ?case
      by (simp add: initialApp_def)
  next
    case (inbound a msg)
    then show ?case
      by (simp add: onMessage_paused onMessage_logged)
  next
    case (timerFires a ms)
    then show ?case
      using none by simp
  next
    case (sweepReturns a ms outcome s')
    then show ?case
      using none by simp
  qed
  then show ?thesis
    using none by simp
qed

theorem no_interval_no_redemption_witness:
  "redeemIntervalMs (watching True (readRedeemDuration (\<lambda>str. if str = ''0'' then Some 0 else None)
                                       (Some ''0''))) = None
   \<and> \<not> isCopyTradingPaused (snd (onMessage
         (watching True (readRedeemDuration (\<lambda>str. if str = ''0'' then Some 0 else None) (Some ''0'')))
         (None :: nat collaborators option) (tradeMessage (tradeOf ''BUY'')) (initialApp (holding 0))))"
proof -
  define parseInt :: "string \<Rightarrow> int option" where
    "parseInt = (\<lambda>str. if str = ''0'' then Some 0 else None)"
  define cfg where "cfg = watching True (readRedeemDuration parseInt (Some ''0''))"
  have loaded: "redeemDurationMinutes cfg = readRedeemDuration parseInt (Some ''0'')"
    by (simp add: cfg_def watching_def)
  have off: "Some ''0'' = None
             \<or> (\<exists>str. Some ''0'' = Some str \<and> (str = [] \<or> parseInt str = Some 0))"
    by (simp add: parseInt_def)
  have reach: "reachable cfg (None :: nat collaborators option) (holding 0)
                 (snd (onMessage cfg None (tradeMessage (tradeOf ''BUY'')) (initialApp (holding 0))))"
    by (rule reachable.inbound [OF reachable.started])
  show ?thesis
    using no_interval_no_redemption [OF loaded off reach]
    by (simp add: cfg_def parseInt_def)
qed

section \<open>The redemption sweep\<close>

lemma attempts_append: "attempts m (xs @ ys) = attempts m xs + attempts m ys"
  by (simp add: attempts_def)

lemma attempts_called:
  "attempts m (trace (called e w s))
     = attempts m (trace s) + (if e = RedeemAttempt m True \<or> e = RedeemAttempt m False then 1 else 0)"
  by (simp add: called_def attempts_def)

lemma redeemWithRetry_attempts:
  "attempts m' (trace (snd (redeemWithRetry rd n m s)))
     \<le> attempts m' (trace s) + (if m' = m then n else 0)"
proof (induction n arbitrary: s)
  case 0
  show ?case by simp
next
  case (Suc n)
  show ?case
    using Suc.IH [of "called (RedeemAttempt m (fst (redeemPosition rd m (world s))))
                        (snd (redeemPosition rd m (world s))) s"]
    by (auto simp add: Let_def attempts_called split: if_splits)
qed

lemma redeemWithRetry_ledger: "ledger (snd (redeemWithRetry rd n m s)) = ledger s"
  by (induction n arbitrary: s) (simp_all add: Let_def called_def)

lemma redeemWithRetry_exhausted:
  "\<not> fst (redeemWithRetry rd n m s) \<Longrightarrow>
   trace (snd (redeemWithRetry rd n m s)) = trace s @ replicate n (RedeemAttempt m False)"
proof (induction n arbitrary: s)
  case 0
  show ?case by simp
next
  case (Suc n)
  define s1 where "s1 = called (RedeemAttempt m False) (snd (redeemPosition rd m (world s))) s"
  have refused: "\<not> fst (redeemPosition rd m (world s))"
    using Suc.prems by (auto simp add: Let_def split: if_splits)
  then have again: "redeemWithRetry rd (Suc n) m s = redeemWithRetry rd n m s1"
    by (simp add: Let_def s1_def)
  then have "trace (snd (redeemWithRetry rd n m s1)) = trace s1 @ replicate n (RedeemAttempt m False)"
    using Suc.IH [of s1] Suc.prems by simp
  then show ?case
    unfolding again by (simp add: s1_def called_def replicate_app_Cons_same)
qed

lemma redeemWithRetry_redeemed:
  "fst (redeemWithRetry rd n m s) \<Longrightarrow>
   \<exists>j<n. trace (snd (redeemWithRetry rd n m s))
           = trace s @ replicate j (RedeemAttempt m False) @ [RedeemAttempt m True]"
proof (induction n arbitrary: s)
  case 0
  then show ?case by simp
next
  case (Suc n)
  show ?case
  proof (cases "fst (redeemPosition rd m (world s))")
    case True
    then have "trace (snd (redeemWithRetry rd (Suc n) m s))
                 = trace s @ replicate 0 (RedeemAttempt m False) @ [RedeemAttempt m True]"
      by (simp add: Let_def called_def)
    then show ?thesis
      by blast
  next
    case False
    define s1 where "s1 = called (RedeemAttempt m False) (snd (redeemPosition rd m (world s))) s"
    have again: "redeemWithRetry rd (Suc n) m s = redeemWithRetry rd n m s1"
      using False by (simp add: Let_def s1_def)
    then obtain j where "j < n"
      and "trace (snd (redeemWithRetry rd n m s1))
             = trace s1 @ replicate j (RedeemAttempt m False) @ [RedeemAttempt m True]"
      using Suc.IH [of s1] Suc.prems by auto
    then have "Suc j < Suc n"
      and "trace (snd (redeemWithRetry rd (Suc n) m s))
             = trace s @ replicate (Suc j) (RedeemAttempt m False) @ [RedeemAttempt m True]"
      unfolding again by (simp_all add: s1_def called_def)
    then show ?thesis
      by blast
  qed
qed

lemma sweepMarkets_total:
  "total (fst (sweepMarkets rd k ms counts s)) = total counts + length ms"
  by (induction ms arbitrary: counts s) (simp_all add: Let_def split: resolution.splits)

lemma sweepMarkets_order:
  "redeemed counts + failed counts \<le> resolved counts \<Longrightarrow> resolved counts \<le> total counts \<Longrightarrow>
   redeemed (fst (sweepMarkets rd k ms counts s)) + failed (fst (sweepMarkets rd k ms counts s))
     \<le> resolved (fst (sweepMarkets rd k ms counts s))
   \<and> resolved (fst (sweepMarkets rd k ms counts s)) \<le> total (fst (sweepMarkets rd k ms counts s))"
proof (induction ms arbitrary: counts s)
  case Nil
  then show ?case by simp
next
  case (Cons m ms)
  show ?case
    using Cons.prems
    by (auto simp add: Let_def split: resolution.splits intro!: Cons.IH)
qed

lemma sweepMarkets_attempts:
  "distinct ms \<Longrightarrow>
   attempts m (trace (snd (sweepMarkets rd k ms counts s)))
     \<le> attempts m (trace s) + (if m \<in> set ms then k else 0)"
proof (induction ms arbitrary: counts s)
  case Nil
  show ?case by simp
next
  case (Cons x ms)
  define s1 where
    "s1 = called (CheckResolution x (fst (checkResolution rd x (world s))))
            (snd (checkResolution rd x (world s))) s"
  define tried where "tried = redeemWithRetry rd k x s1"
  define examined where "examined = counts\<lparr>total := total counts + 1\<rparr>"
  define settled where "settled = examined\<lparr>resolved := resolved examined + 1\<rparr>"
  have a1: "attempts m (trace s1) = attempts m (trace s)"
    by (simp add: s1_def attempts_called)
  have a2: "attempts m (trace (snd tried)) \<le> attempts m (trace s) + (if m = x then k else 0)"
    using redeemWithRetry_attempts [of m rd k x s1] by (simp add: tried_def a1)
  have step: "attempts m (trace (snd (sweepMarkets rd k ms counts' s')))
                \<le> attempts m (trace s) + (if m \<in> set (x # ms) then k else 0)"
    if "attempts m (trace s') \<le> attempts m (trace s) + (if m = x then k else 0)" for counts' s'
    using Cons.IH [of counts' s'] Cons.prems that by (auto split: if_splits)
  show ?case
  proof (cases "fst (checkResolution rd x (world s))")
    case Unresolved
    then have eq: "sweepMarkets rd k (x # ms) counts s = sweepMarkets rd k ms examined s1"
      by (simp add: Let_def s1_def examined_def)
    show ?thesis
      unfolding eq by (rule step) (simp add: a1)
  next
    case (Resolved won)
    show ?thesis
    proof (cases won)
      case False
      then have eq: "sweepMarkets rd k (x # ms) counts s = sweepMarkets rd k ms settled s1"
        using Resolved by (simp add: Let_def s1_def examined_def settled_def)
      show ?thesis
        unfolding eq by (rule step) (simp add: a1)
    next
      case True
      show ?thesis
      proof (cases "fst tried")
        case False
        then have eq: "sweepMarkets rd k (x # ms) counts s =
                         sweepMarkets rd k ms (settled\<lparr>failed := failed settled + 1\<rparr>) (snd tried)"
          using Resolved True by (simp add: Let_def s1_def tried_def examined_def settled_def)
        show ?thesis
          unfolding eq by (rule step) (simp add: a2)
      next
        case redeemedNow: True
        then have eq: "sweepMarkets rd k (x # ms) counts s =
                         sweepMarkets rd k ms (settled\<lparr>redeemed := redeemed settled + 1\<rparr>)
                           ((snd tried)\<lparr>ledger := removeMarket (ledger (snd tried)) x\<rparr>)"
          using Resolved True by (simp add: Let_def s1_def tried_def examined_def settled_def)
        show ?thesis
          unfolding eq by (rule step) (simp add: a2)
      qed
    qed
  qed
qed

text \<open>
  The sweep over a list of markets does, for each market in turn, what one of the
  verdicts says, and counts the verdicts.
\<close>

lemma sweepMarkets_log:
  "\<exists>vs. length vs = length ms
        \<and> list_all (timely k) vs
        \<and> trace (snd (sweepMarkets rd k ms counts s))
            = trace s @ concat (map2 (visitLog k) ms vs)
        \<and> resolved (fst (sweepMarkets rd k ms counts s))
            = resolved counts + length (filter (\<lambda>v. v \<noteq> Skipped) vs)
        \<and> redeemed (fst (sweepMarkets rd k ms counts s))
            = redeemed counts + length (filter wasRedeemed vs)
        \<and> failed (fst (sweepMarkets rd k ms counts s))
            = failed counts + length (filter (\<lambda>v. v = Exhausted) vs)
        \<and> ledger (snd (sweepMarkets rd k ms counts s))
            = foldl removeMarket (ledger s) (redeemedMarkets ms vs)"
proof (induction ms arbitrary: counts s)
  case Nil
  show ?case
    by (simp add: redeemedMarkets_def)
next
  case (Cons x ms)
  define s1 where
    "s1 = called (CheckResolution x (fst (checkResolution rd x (world s))))
            (snd (checkResolution rd x (world s))) s"
  define tried where "tried = redeemWithRetry rd k x s1"
  define examined where "examined = counts\<lparr>total := total counts + 1\<rparr>"
  define settled where "settled = examined\<lparr>resolved := resolved examined + 1\<rparr>"
  have step: "\<exists>vs. length vs = length (x # ms)
        \<and> list_all (timely k) vs
        \<and> trace (snd (sweepMarkets rd k ms counts' s'))
            = trace s @ concat (map2 (visitLog k) (x # ms) vs)
        \<and> resolved (fst (sweepMarkets rd k ms counts' s'))
            = resolved counts + length (filter (\<lambda>v. v \<noteq> Skipped) vs)
        \<and> redeemed (fst (sweepMarkets rd k ms counts' s'))
            = redeemed counts + length (filter wasRedeemed vs)
        \<and> failed (fst (sweepMarkets rd k ms counts' s'))
            = failed counts + length (filter (\<lambda>v. v = Exhausted) vs)
        \<and> ledger (snd (sweepMarkets rd k ms counts' s'))
            = foldl removeMarket (ledger s) (redeemedMarkets (x # ms) vs)"
    if "timely k v" and "trace s' = trace s @ visitLog k x v"
      and "resolved counts' = resolved counts + (if v \<noteq> Skipped then 1 else 0)"
      and "redeemed counts' = redeemed counts + (if wasRedeemed v then 1 else 0)"
      and "failed counts' = failed counts + (if v = Exhausted then 1 else 0)"
      and "ledger s' = (if wasRedeemed v then removeMarket (ledger s) x else ledger s)"
    for v counts' s'
  proof -
    obtain vs where "length vs = length ms" "list_all (timely k) vs"
      "trace (snd (sweepMarkets rd k ms counts' s')) = trace s' @ concat (map2 (visitLog k) ms vs)"
      "resolved (fst (sweepMarkets rd k ms counts' s'))
         = resolved counts' + length (filter (\<lambda>v. v \<noteq> Skipped) vs)"
      "redeemed (fst (sweepMarkets rd k ms counts' s'))
         = redeemed counts' + length (filter wasRedeemed vs)"
      "failed (fst (sweepMarkets rd k ms counts' s'))
         = failed counts' + length (filter (\<lambda>v. v = Exhausted) vs)"
      "ledger (snd (sweepMarkets rd k ms counts' s'))
         = foldl removeMarket (ledger s') (redeemedMarkets ms vs)"
      using Cons.IH [of counts' s'] by blast
    then have "length (v # vs) = length (x # ms)
        \<and> list_all (timely k) (v # vs)
        \<and> trace (snd (sweepMarkets rd k ms counts' s'))
            = trace s @ concat (map2 (visitLog k) (x # ms) (v # vs))
        \<and> resolved (fst (sweepMarkets rd k ms counts' s'))
            = resolved counts + length (filter (\<lambda>v. v \<noteq> Skipped) (v # vs))
        \<and> redeemed (fst (sweepMarkets rd k ms counts' s'))
            = redeemed counts + length (filter wasRedeemed (v # vs))
        \<and> failed (fst (sweepMarkets rd k ms counts' s'))
            = failed counts + length (filter (\<lambda>v. v = Exhausted) (v # vs))
        \<and> ledger (snd (sweepMarkets rd k ms counts' s'))
            = foldl removeMarket (ledger s) (redeemedMarkets (x # ms) (v # vs))"
      using that by (simp add: redeemedMarkets_def)
    then show ?thesis
      by (rule exI)
  qed
  have t1: "trace s1 = trace s @ [CheckResolution x (fst (checkResolution rd x (world s)))]"
    and l1: "ledger s1 = ledger s"
    by (simp_all add: s1_def called_def)
  show ?case
  proof (cases "fst (checkResolution rd x (world s))")
    case Unresolved
    then have eq: "sweepMarkets rd k (x # ms) counts s = sweepMarkets rd k ms examined s1"
      by (simp add: Let_def s1_def examined_def)
    show ?thesis
      unfolding eq
      by (rule step [of Skipped]) (simp_all add: t1 l1 Unresolved examined_def)
  next
    case (Resolved won)
    show ?thesis
    proof (cases won)
      case False
      then have eq: "sweepMarkets rd k (x # ms) counts s = sweepMarkets rd k ms settled s1"
        using Resolved by (simp add: Let_def s1_def examined_def settled_def)
      show ?thesis
        unfolding eq
        by (rule step [of Lost]) (simp_all add: t1 l1 Resolved False examined_def settled_def)
    next
      case True
      show ?thesis
      proof (cases "fst tried")
        case False
        then have eq: "sweepMarkets rd k (x # ms) counts s =
                         sweepMarkets rd k ms (settled\<lparr>failed := failed settled + 1\<rparr>) (snd tried)"
          using Resolved True by (simp add: Let_def s1_def tried_def examined_def settled_def)
        have "trace (snd tried) = trace s1 @ replicate k (RedeemAttempt x False)"
          using redeemWithRetry_exhausted [of rd k x s1] False by (simp add: tried_def)
        then show ?thesis
          unfolding eq
          by (intro step [of Exhausted])
             (simp_all add: t1 l1 Resolved True examined_def settled_def tried_def
                redeemWithRetry_ledger)
      next
        case redeemedNow: True
        then have eq: "sweepMarkets rd k (x # ms) counts s =
                         sweepMarkets rd k ms (settled\<lparr>redeemed := redeemed settled + 1\<rparr>)
                           ((snd tried)\<lparr>ledger := removeMarket (ledger (snd tried)) x\<rparr>)"
          using Resolved True by (simp add: Let_def s1_def tried_def examined_def settled_def)
        obtain j where "j < k"
          and "trace (snd tried)
                 = trace s1 @ replicate j (RedeemAttempt x False) @ [RedeemAttempt x True]"
          using redeemWithRetry_redeemed [of rd k x s1] redeemedNow by (auto simp add: tried_def)
        then show ?thesis
          unfolding eq
          by (intro step [of "Redeemed j"])
             (simp_all add: t1 l1 Resolved True examined_def settled_def tried_def
                redeemWithRetry_ledger)
      qed
    qed
  qed
qed

lemma examinedMarkets_append:
  "examinedMarkets (xs @ ys) = examinedMarkets xs @ examinedMarkets ys"
  by (induction xs rule: examinedMarkets.induct) simp_all

lemma examinedMarkets_attempts: "examinedMarkets (replicate j (RedeemAttempt m ok)) = []"
  by (induction j) simp_all

lemma examinedMarkets_visit: "examinedMarkets (visitLog k m v) = [m]"
  by (cases v) (simp_all add: examinedMarkets_append examinedMarkets_attempts)

lemma examinedMarkets_visits:
  "length vs = length ms \<Longrightarrow> examinedMarkets (concat (map2 (visitLog k) ms vs)) = ms"
proof (induction ms arbitrary: vs)
  case Nil
  then show ?case by simp
next
  case (Cons m ms)
  then obtain v vs' where "vs = v # vs'" and "length vs' = length ms"
    by (cases vs) simp_all
  then show ?case
    using Cons.IH [of vs'] by (simp add: examinedMarkets_append examinedMarkets_visit)
qed

text \<open>
  C8.  The counts returned by a sweep satisfy redeemed + failed \<open>\<le>\<close> resolved \<open>\<le>\<close> total.
  The total is the number of distinct markets in the ledger, and the resolution of
  every one of them is looked up, once and in order, whatever happened to the markets
  before it.  No market is the subject of more redemption attempts than the retry
  count, which \<^verbatim>\<open>performRedemption\<close> sets to 3.  More precisely, the sweep gives each market
  a verdict and does exactly what the verdicts say: a skipped or lost market is only
  looked up; a redeemed market has its successful attempt after fewer failed ones than
  the retry count, and its entries leave the ledger; an exhausted market has exactly
  as many failed attempts as the retry count, keeps its entries and is followed by
  the remaining markets.  The resolved count is the number of markets not skipped, the
  redeemed count the number of markets redeemed, the failed count the number of
  markets exhausted.
\<close>

theorem sweep_counts:
  fixes s :: "'w state"
  shows "redeemed (fst (autoRedeemResolvedMarkets rd maxRetries s))
           + failed (fst (autoRedeemResolvedMarkets rd maxRetries s))
           \<le> resolved (fst (autoRedeemResolvedMarkets rd maxRetries s))
         \<and> resolved (fst (autoRedeemResolvedMarkets rd maxRetries s))
           \<le> total (fst (autoRedeemResolvedMarkets rd maxRetries s))
         \<and> total (fst (autoRedeemResolvedMarkets rd maxRetries s)) = length (heldMarkets (ledger s))
         \<and> attempts m (trace (snd (autoRedeemResolvedMarkets rd maxRetries s)))
           \<le> attempts m (trace s) + maxRetries
         \<and> examinedMarkets (trace (snd (autoRedeemResolvedMarkets rd maxRetries s)))
           = examinedMarkets (trace s) @ heldMarkets (ledger s)
         \<and> (\<exists>vs. length vs = length (heldMarkets (ledger s))
               \<and> list_all (timely maxRetries) vs
               \<and> trace (snd (autoRedeemResolvedMarkets rd maxRetries s))
                   = trace s @ concat (map2 (visitLog maxRetries) (heldMarkets (ledger s)) vs)
               \<and> resolved (fst (autoRedeemResolvedMarkets rd maxRetries s))
                   = length (filter (\<lambda>v. v \<noteq> Skipped) vs)
               \<and> redeemed (fst (autoRedeemResolvedMarkets rd maxRetries s))
                   = length (filter wasRedeemed vs)
               \<and> failed (fst (autoRedeemResolvedMarkets rd maxRetries s))
                   = length (filter (\<lambda>v. v = Exhausted) vs)
               \<and> ledger (snd (autoRedeemResolvedMarkets rd maxRetries s))
                   = foldl removeMarket (ledger s) (redeemedMarkets (heldMarkets (ledger s)) vs))"
proof -
  define start where "start = \<lparr>total = 0, resolved = 0, redeemed = 0, failed = 0\<rparr>"
  have sweep: "autoRedeemResolvedMarkets rd maxRetries s
                 = sweepMarkets rd maxRetries (heldMarkets (ledger s)) start s"
    by (simp add: autoRedeemResolvedMarkets_def start_def)
  have "attempts m (trace (snd (autoRedeemResolvedMarkets rd maxRetries s)))
          \<le> attempts m (trace s) + (if m \<in> set (heldMarkets (ledger s)) then maxRetries else 0)"
    unfolding sweep
    by (rule sweepMarkets_attempts) (simp add: heldMarkets_def)
  then have bounded: "attempts m (trace (snd (autoRedeemResolvedMarkets rd maxRetries s)))
          \<le> attempts m (trace s) + maxRetries"
    by (simp split: if_splits)
  have ordered: "redeemed (fst (autoRedeemResolvedMarkets rd maxRetries s))
           + failed (fst (autoRedeemResolvedMarkets rd maxRetries s))
           \<le> resolved (fst (autoRedeemResolvedMarkets rd maxRetries s))
         \<and> resolved (fst (autoRedeemResolvedMarkets rd maxRetries s))
           \<le> total (fst (autoRedeemResolvedMarkets rd maxRetries s))"
    unfolding sweep
    by (rule sweepMarkets_order) (simp_all add: start_def)
  have all: "total (fst (autoRedeemResolvedMarkets rd maxRetries s)) = length (heldMarkets (ledger s))"
    by (simp add: sweep sweepMarkets_total start_def)
  obtain vs where vs: "length vs = length (heldMarkets (ledger s))"
    and timely: "list_all (timely maxRetries) vs"
    and log: "trace (snd (autoRedeemResolvedMarkets rd maxRetries s))
                = trace s @ concat (map2 (visitLog maxRetries) (heldMarkets (ledger s)) vs)"
    and counted: "resolved (fst (autoRedeemResolvedMarkets rd maxRetries s))
                    = length (filter (\<lambda>v. v \<noteq> Skipped) vs)"
      "redeemed (fst (autoRedeemResolvedMarkets rd maxRetries s)) = length (filter wasRedeemed vs)"
      "failed (fst (autoRedeemResolvedMarkets rd maxRetries s))
         = length (filter (\<lambda>v. v = Exhausted) vs)"
    and kept: "ledger (snd (autoRedeemResolvedMarkets rd maxRetries s))
                 = foldl removeMarket (ledger s) (redeemedMarkets (heldMarkets (ledger s)) vs)"
    using sweepMarkets_log [of "heldMarkets (ledger s)" maxRetries rd start s]
    unfolding sweep by (auto simp add: start_def)
  have looked: "examinedMarkets (trace (snd (autoRedeemResolvedMarkets rd maxRetries s)))
                  = examinedMarkets (trace s) @ heldMarkets (ledger s)"
    by (simp add: log examinedMarkets_append examinedMarkets_visits [OF vs])
  have "\<exists>vs. length vs = length (heldMarkets (ledger s))
               \<and> list_all (timely maxRetries) vs
               \<and> trace (snd (autoRedeemResolvedMarkets rd maxRetries s))
                   = trace s @ concat (map2 (visitLog maxRetries) (heldMarkets (ledger s)) vs)
               \<and> resolved (fst (autoRedeemResolvedMarkets rd maxRetries s))
                   = length (filter (\<lambda>v. v \<noteq> Skipped) vs)
               \<and> redeemed (fst (autoRedeemResolvedMarkets rd maxRetries s))
                   = length (filter wasRedeemed vs)
               \<and> failed (fst (autoRedeemResolvedMarkets rd maxRetries s))
                   = length (filter (\<lambda>v. v = Exhausted) vs)
               \<and> ledger (snd (autoRedeemResolvedMarkets rd maxRetries s))
                   = foldl removeMarket (ledger s) (redeemedMarkets (heldMarkets (ledger s)) vs)"
    using vs timely log counted kept by blast
  then show ?thesis
    using ordered all bounded looked by blast
qed

text \<open>
  The spec's example: with 3 attempts allowed, market A is exhausted, B is redeemed at
  the first attempt and C is skipped.
\<close>

lemma sweep_isolation:
  "fst (autoRedeemResolvedMarkets threeMarkets 3 threeHoldings)
     = \<lparr>total = 3, resolved = 2, redeemed = 1, failed = 1\<rparr>
   \<and> ledger (snd (autoRedeemResolvedMarkets threeMarkets 3 threeHoldings))
     = [((''A'', ''a1''), 1), ((''C'', ''c1''), 3)]
   \<and> trace (snd (autoRedeemResolvedMarkets threeMarkets 3 threeHoldings))
     = concat (map2 (visitLog 3) [''A'', ''B'', ''C''] [Exhausted, Redeemed 0, Skipped])"
  by (simp add: autoRedeemResolvedMarkets_def heldMarkets_def threeMarkets_def threeHoldings_def
      removeMarket_def called_def Let_def eval_nat_numeral)

end
